theory Spec2Isabelle
  imports Main "HOL-Library.AList" "HOL-Library.Multiset"
begin

section \<open>Python values, dictionaries and errors\<close>

text \<open>
  The connector of \<^verbatim>\<open>bleemeo.py\<close> works on JSON-like values: metric points, registry
  responses and cache entries are dictionaries of strings, numbers and \<^verbatim>\<open>None\<close>.
\<close>

datatype pyval = PNone | PStr string | PNum int

datatype error = KeyError | TypeError | AttributeError

text \<open>
  The inspect data of a container, as Docker returns it, is nested JSON: dictionaries and
  lists as well as strings, numbers, booleans and \<^verbatim>\<open>None\<close>.
\<close>

datatype jvalue =
  INone | IStr string | INum int | IBool bool | IList "jvalue list"
  | IDict "(string \<times> jvalue) list"

text \<open>
  A dictionary is an association list in insertion order with the dictionary operations
  of Python: \<^verbatim>\<open>d.get(k)\<close>, \<^verbatim>\<open>k in d\<close>, \<^verbatim>\<open>d[k]\<close>, \<^verbatim>\<open>d.setdefault(k, v)\<close>,
  \<^verbatim>\<open>d[k] = v\<close> and \<^verbatim>\<open>del d[k]\<close> (the last two raise \<^verbatim>\<open>KeyError\<close> on a missing key).
\<close>

type_synonym ('k, 'v) pydict = "('k \<times> 'v) list"

type_synonym json = "(string, pyval) pydict"

definition has_key :: "('k, 'v) pydict \<Rightarrow> 'k \<Rightarrow> bool" where
  "has_key d k = (case map_of d k of None \<Rightarrow> False | Some v \<Rightarrow> True)"

definition dict_get :: "('k, pyval) pydict \<Rightarrow> 'k \<Rightarrow> pyval" where
  "dict_get d k = (case map_of d k of None \<Rightarrow> PNone | Some v \<Rightarrow> v)"

definition getitem :: "('k, 'v) pydict \<Rightarrow> 'k \<Rightarrow> error + 'v" where
  "getitem d k = (case map_of d k of None \<Rightarrow> Inl KeyError | Some v \<Rightarrow> Inr v)"

definition setdefault :: "('k, 'v) pydict \<Rightarrow> 'k \<Rightarrow> 'v \<Rightarrow> ('k, 'v) pydict" where
  "setdefault d k v = (if has_key d k then d else d @ [(k, v)])"

definition setitem :: "('k, 'v) pydict \<Rightarrow> 'k \<Rightarrow> 'v \<Rightarrow> ('k, 'v) pydict" where
  "setitem d k v = AList.update k v d"

definition delitem :: "('k, 'v) pydict \<Rightarrow> 'k \<Rightarrow> error + ('k, 'v) pydict" where
  "delitem d k = (if has_key d k then Inr (AList.delete k d) else Inl KeyError)"

section \<open>The connector's state\<close>

text \<open>
  A metric identity is the tuple \<^verbatim>\<open>(measurement, service, item)\<close>. A point on the
  outbound queue is a Python object: its address (compared by \<^verbatim>\<open>is\<close> in the drain loop)
  and its contents.
\<close>

type_synonym key = "pyval \<times> pyval \<times> pyval"

type_synonym point = "nat \<times> json"

text \<open>What is handed to \<^verbatim>\<open>mqtt_client.publish\<close>: \<^verbatim>\<open>json.dumps\<close> of an object or of a batch.\<close>

datatype message = Obj json | Batch "json list"

text \<open>
  Registry calls, by resource collection and identifier, and the registry itself: its
  answer (status code and JSON body) may depend on every call made before. \<open>PostJ\<close> and
  \<open>PutJ\<close> are \<^verbatim>\<open>POST\<close> and \<^verbatim>\<open>PUT\<close> with a body of nested JSON values.
\<close>

datatype request =
  Post string json | Put string pyval json | Delete string pyval
  | PostJ string "(string \<times> jvalue) list" | PutJ string pyval "(string \<times> jvalue) list"

type_synonym response = "nat \<times> json"

type_synonym registry = "request list \<Rightarrow> request \<Rightarrow> response"

text \<open>
  The fields of \<^verbatim>\<open>BleemeoConnector\<close> the modelled methods use, then the fields of
  \<^verbatim>\<open>self.core\<close> they read (\<^verbatim>\<open>alerting_mode\<close>, \<^verbatim>\<open>config.get('metric.alerting_metric')\<close>,
  \<^verbatim>\<open>is_terminating\<close>, \<^verbatim>\<open>docker_containers\<close> with the inspect data of each container,
  the persisted \<^verbatim>\<open>docker_container_uuid\<close> and \<^verbatim>\<open>thresholds\<close>, \<^verbatim>\<open>agent_uuid\<close>,
  \<^verbatim>\<open>last_facts.get('public_ip')\<close> and \<^verbatim>\<open>last_facts.get('docker_api_version', '')\<close>).
  \<open>mqtt_published\<close>, \<open>mqtt_subscribed\<close> and \<open>http_calls\<close> record the effects on the
  network, in order.
\<close>

record connector =
  metric_queue :: "point list"
  metrics_uuid :: "(key, pyval) pydict"
  metrics_info :: "(key, json) pydict"
  services_uuid :: "(pyval \<times> pyval, json) pydict"
  mqtt_queue_size :: int
  connected :: bool
  last_containers_removed :: nat
  mqtt_published :: "(string \<times> message) list"
  mqtt_subscribed :: "string list"
  http_calls :: "request list"
  alerting_mode :: bool
  alerting_metric :: "pyval list option"
  is_terminating :: bool
  upgrade_in_progress :: bool
  docker_containers :: "(pyval, jvalue) pydict"
  docker_container_uuid :: "(pyval, pyval \<times> pyval) pydict"
  thresholds :: "(pyval \<times> pyval, json) pydict"
  agent_uuid :: string
  public_ip :: pyval
  docker_api_version :: pyval

section \<open>Emission of metric points\<close>

definition sent_metric :: "connector \<Rightarrow> pyval \<Rightarrow> bool \<Rightarrow> error + bool" where
  "sent_metric s metric_name metric_has_status =
     (if \<not> alerting_mode s then Inr True
      else if metric_has_status then Inr True
      else (case alerting_metric s of
              None \<Rightarrow> Inl TypeError
            | Some whitelist \<Rightarrow> if metric_name \<in> set whitelist then Inr True else Inr False))"

definition emit_metric :: "connector \<Rightarrow> point \<Rightarrow> error + connector" where
  "emit_metric s metric =
     (case getitem (snd metric) ''measurement'' of
        Inl e \<Rightarrow> Inl e
      | Inr metric_name \<Rightarrow>
          (let metric_has_status = (dict_get (snd metric) ''status'' \<noteq> PNone) in
           case sent_metric s metric_name metric_has_status of
             Inl e \<Rightarrow> Inl e
           | Inr False \<Rightarrow> Inr s
           | Inr True \<Rightarrow>
               (let s1 = (if length (metric_queue s) < 100000
                          then s\<lparr>metric_queue := metric_queue s @ [metric]\<rparr> else s);
                    service = dict_get (snd metric) ''service'';
                    item = dict_get (snd metric) ''item'';
                    k = (metric_name, service, item);
                    s2 = (if \<not> has_key (metrics_info s1) k
                          then s1\<lparr>metrics_info := setdefault (metrics_info s1) k
                                 [(''status_of'', dict_get (snd metric) ''status_of''),
                                  (''instance'', dict_get (snd metric) ''instance''),
                                  (''container'', dict_get (snd metric) ''container'')]\<rparr>
                          else s1)
                in Inr (if \<not> has_key (metrics_uuid s2) k
                        then s2\<lparr>metrics_uuid := setdefault (metrics_uuid s2) k PNone\<rparr>
                        else s2))))"

text \<open>A sequence of emissions by the producers, one after the other.\<close>

fun emit_metrics :: "connector \<Rightarrow> point list \<Rightarrow> error + connector" where
  "emit_metrics s [] = Inr s"
| "emit_metrics s (metric # rest) =
     (case emit_metric s metric of Inl e \<Rightarrow> Inl e | Inr s' \<Rightarrow> emit_metrics s' rest)"

section \<open>Transport\<close>

definition MQTT_QUEUE_MAX_SIZE :: int where
  "MQTT_QUEUE_MAX_SIZE = 2000"

definition publish :: "connector \<Rightarrow> string \<Rightarrow> message \<Rightarrow> bool \<Rightarrow> connector" where
  "publish s topic msg force =
     (if mqtt_queue_size s > MQTT_QUEUE_MAX_SIZE \<and> \<not> force then s
      else s\<lparr>mqtt_queue_size := mqtt_queue_size s + 1,
             mqtt_published := mqtt_published s @ [(topic, msg)]\<rparr>)"

definition on_publish :: "connector \<Rightarrow> connector" where
  "on_publish s = s\<lparr>mqtt_queue_size := mqtt_queue_size s - 1\<rparr>"

definition on_connect :: "connector \<Rightarrow> int \<Rightarrow> connector" where
  "on_connect s rc =
     (if rc = 0 \<and> \<not> is_terminating s then
        (let s1 = publish (s\<lparr>connected := True\<rparr>)
                    (''v1/agent/'' @ agent_uuid s @ ''/connect'')
                    (Obj [(''public_ip'', public_ip s)]) False
         in s1\<lparr>mqtt_subscribed :=
                  mqtt_subscribed s1 @ [''v1/agent/'' @ agent_uuid s @ ''/notification'']\<rparr>)
      else s)"

text \<open>
  The end of \<^verbatim>\<open>run\<close>, once \<^verbatim>\<open>is_terminating\<close> is set and the drain loop has been left:
  the disconnect announcement.
\<close>

definition run_disconnect :: "connector \<Rightarrow> connector" where
  "run_disconnect s =
     (if connected s \<and> \<not> upgrade_in_progress s
      then publish s (''v1/agent/'' @ agent_uuid s @ ''/disconnect'')
             (Obj [(''disconnect-cause'', PStr ''Clean shutdown'')]) True
      else s)"

section \<open>The drain loop\<close>

text \<open>
  The \<^verbatim>\<open>while True\<close> of \<^verbatim>\<open>_loop\<close>, with the queue, the batch \<^verbatim>\<open>metrics\<close> and the address
  of \<^verbatim>\<open>repush_metric\<close>. No producer runs in between, so \<^verbatim>\<open>get\<close> raises
  \<^verbatim>\<open>queue.Empty\<close> exactly on the empty queue. The result is the queue and the batch at
  the end of the loop; \<open>None\<close> stands for a loop that never ends.
\<close>

partial_function (option) loop_while ::
  "(key, pyval) pydict \<Rightarrow> point list \<Rightarrow> json list \<Rightarrow> nat option
     \<Rightarrow> (error + point list \<times> json list) option"
where
  "loop_while uuids queue metrics repush_metric =
     (case queue of
        [] \<Rightarrow> Some (Inr (queue, metrics))
      | metric # queue' \<Rightarrow>
          (case getitem (snd metric) ''measurement'' of
             Inl e \<Rightarrow> Some (Inl e)
           | Inr measurement \<Rightarrow>
               (let k = (measurement, dict_get (snd metric) ''service'',
                         dict_get (snd metric) ''item'');
                    metric_uuid = (case map_of uuids k of
                                     None \<Rightarrow> PStr ''deleted'' | Some v \<Rightarrow> v)
                in if metric_uuid = PStr ''deleted'' then
                     loop_while uuids queue' metrics repush_metric
                   else if metric_uuid = PNone then
                     (if repush_metric = Some (fst metric)
                      then Some (Inr (queue' @ [metric], metrics))
                      else loop_while uuids (queue' @ [metric]) metrics
                             (if repush_metric = None then Some (fst metric)
                              else repush_metric))
                   else
                     (let metrics' = metrics @ [setitem (snd metric) ''uuid'' metric_uuid]
                      in if length metrics' > 1000 then Some (Inr (queue', metrics'))
                         else loop_while uuids queue' metrics' repush_metric))))"

definition loop :: "connector \<Rightarrow> (error + connector) option" where
  "loop s =
     (case loop_while (metrics_uuid s) (metric_queue s) [] None of
        None \<Rightarrow> None
      | Some (Inl e) \<Rightarrow> Some (Inl e)
      | Some (Inr (queue, metrics)) \<Rightarrow>
          Some (Inr (if length metrics \<noteq> 0
                     then publish (s\<lparr>metric_queue := queue\<rparr>)
                            (''v1/agent/'' @ agent_uuid s @ ''/data'') (Batch metrics) False
                     else s\<lparr>metric_queue := queue\<rparr>)))"

section \<open>Reconciliation with the registry\<close>

text \<open>
  How a method of the connector ends: it runs to the end of its body (\<open>Next\<close>, also the
  \<^verbatim>\<open>continue\<close> of a loop body), it leaves through a \<^verbatim>\<open>return\<close> inside a loop (\<open>Return\<close>), or
  an exception escapes (\<open>Raise\<close>).
\<close>

datatype 'a flow = Next 'a | Return 'a | Raise error

text \<open>A call of \<^verbatim>\<open>requests\<close>: the registry answers, and the call is recorded.\<close>

definition http :: "registry \<Rightarrow> connector \<Rightarrow> request \<Rightarrow> response \<times> connector" where
  "http srv s req = (srv (http_calls s) req, s\<lparr>http_calls := http_calls s @ [req]\<rparr>)"

text \<open>
  The threshold entry built from a registry answer, in \<^verbatim>\<open>_retrive_threshold\<close> and in
  \<^verbatim>\<open>_register_metric\<close>: each \<^verbatim>\<open>data[...]\<close> raises on a missing key.
\<close>

definition threshold_of :: "json \<Rightarrow> error + json" where
  "threshold_of data =
     (case getitem data ''threshold_low_warning'' of
        Inl e \<Rightarrow> Inl e
      | Inr low_warning \<Rightarrow>
          (case getitem data ''threshold_low_critical'' of
             Inl e \<Rightarrow> Inl e
           | Inr low_critical \<Rightarrow>
               (case getitem data ''threshold_high_warning'' of
                  Inl e \<Rightarrow> Inl e
                | Inr high_warning \<Rightarrow>
                    (case getitem data ''threshold_high_critical'' of
                       Inl e \<Rightarrow> Inl e
                     | Inr high_critical \<Rightarrow>
                         Inr [(''low_warning'', low_warning), (''low_critical'', low_critical),
                              (''high_warning'', high_warning),
                              (''high_critical'', high_critical)]))))"

subsection \<open>\<^verbatim>\<open>_register_metric\<close>\<close>

text \<open>
  The block of \<^verbatim>\<open>_register_metric\<close> under \<^verbatim>\<open>metrics_lock\<close> either ends the iteration
  (\<open>Skip\<close>, the \<^verbatim>\<open>continue\<close> statements, with the state they leave), raises (\<open>Fail\<close>) or has
  the payload of the registration ready. It is written here in the order of the source:
  the purge of an entry (\<^verbatim>\<open>del\<close> of both dictionaries), the parent metric, the container,
  the item and the service.
\<close>

datatype prepared = Skip connector | Fail error | Ready json

definition purge_metric :: "connector \<Rightarrow> key \<Rightarrow> prepared" where
  "purge_metric s metric_key =
     (case delitem (metrics_uuid s) metric_key of
        Inl e \<Rightarrow> Fail e
      | Inr uuids \<Rightarrow>
          (case delitem (metrics_info s) metric_key of
             Inl e \<Rightarrow> Fail e
           | Inr infos \<Rightarrow> Skip (s\<lparr>metrics_uuid := uuids, metrics_info := infos\<rparr>)))"

definition payload_service :: "connector \<Rightarrow> key \<Rightarrow> json \<Rightarrow> json \<Rightarrow> prepared" where
  "payload_service s metric_key info payload =
     (case metric_key of (metric_name, service, item) \<Rightarrow>
        (let payload1 = (if item \<noteq> PNone then setitem payload ''item'' item else payload)
         in if service \<noteq> PNone then
              (case getitem info ''instance'' of
                 Inl e \<Rightarrow> Fail e
               | Inr instance \<Rightarrow>
                   (case getitem (services_uuid s) (service, instance) of
                      Inl e \<Rightarrow> Fail e
                    | Inr entry \<Rightarrow>
                        (case getitem entry ''uuid'' of
                           Inl e \<Rightarrow> Fail e
                         | Inr service_uuid \<Rightarrow>
                             Ready (setitem payload1 ''service'' service_uuid))))
            else Ready payload1))"

definition payload_container :: "connector \<Rightarrow> key \<Rightarrow> json \<Rightarrow> json \<Rightarrow> prepared" where
  "payload_container s metric_key info payload =
     (if dict_get info ''container'' \<noteq> PNone then
        (let container_name = dict_get info ''container''
         in if \<not> has_key (docker_containers s) container_name then purge_metric s metric_key
            else (case map_of (docker_container_uuid s) container_name of
                    None \<Rightarrow> Skip s
                  | Some (old_hash, obj_uuid) \<Rightarrow>
                      if obj_uuid = PNone then Skip s
                      else payload_service s metric_key info
                             (setitem payload ''container'' obj_uuid)))
      else payload_service s metric_key info payload)"

definition register_metric_locked :: "connector \<Rightarrow> key \<Rightarrow> prepared" where
  "register_metric_locked s metric_key =
     (case metric_key of (metric_name, service, item) \<Rightarrow>
        (case map_of (metrics_info s) metric_key of
           None \<Rightarrow>
             (case delitem (metrics_uuid s) metric_key of
                Inl e \<Rightarrow> Fail e
              | Inr uuids \<Rightarrow> Skip (s\<lparr>metrics_uuid := uuids\<rparr>))
         | Some info \<Rightarrow>
             (let status_of = dict_get info ''status_of'';
                  from_metric_key = (status_of, service, item);
                  payload = [(''agent'', PStr (agent_uuid s)), (''label'', metric_name)]
              in if status_of \<noteq> PNone then
                   (if \<not> has_key (metrics_uuid s) from_metric_key then purge_metric s metric_key
                    else if dict_get (metrics_uuid s) from_metric_key = PNone then Skip s
                    else payload_container s metric_key info
                           (setitem payload ''status_of''
                              (dict_get (metrics_uuid s) from_metric_key)))
                 else payload_container s metric_key info payload)))"

text \<open>One iteration of the \<^verbatim>\<open>for\<close> loop over the snapshot \<^verbatim>\<open>list_metrics\<close>.\<close>

definition register_metric_one :: "registry \<Rightarrow> connector \<Rightarrow> key \<times> pyval \<Rightarrow> connector flow" where
  "register_metric_one srv s entry =
     (case entry of (metric_key, metric_uuid) \<Rightarrow>
        if metric_uuid \<noteq> PNone then Next s
        else
          (case register_metric_locked s metric_key of
             Skip s' \<Rightarrow> Next s'
           | Fail e \<Rightarrow> Raise e
           | Ready payload \<Rightarrow>
               (case http srv s (Post ''metric'' payload) of (response, s1) \<Rightarrow>
                  if fst response \<noteq> 201 then Return s1
                  else
                    (case getitem (snd response) ''id'' of
                       Inl e \<Rightarrow> Raise e
                     | Inr new_uuid \<Rightarrow>
                         (case threshold_of (snd response) of
                            Inl e \<Rightarrow> Raise e
                          | Inr threshold \<Rightarrow>
                              Next (s1\<lparr>metrics_uuid :=
                                          setitem (metrics_uuid s1) metric_key new_uuid,
                                        thresholds :=
                                          setitem (thresholds s1)
                                            (fst metric_key, snd (snd metric_key))
                                            threshold\<rparr>))))))"

fun register_metric_items ::
  "registry \<Rightarrow> connector \<Rightarrow> (key \<times> pyval) list \<Rightarrow> connector flow" where
  "register_metric_items srv s [] = Next s"
| "register_metric_items srv s (entry # list_metrics) =
     (case register_metric_one srv s entry of
        Next s' \<Rightarrow> register_metric_items srv s' list_metrics
      | Return s' \<Rightarrow> Return s'
      | Raise e \<Rightarrow> Raise e)"

definition register_metric :: "registry \<Rightarrow> connector \<Rightarrow> connector flow" where
  "register_metric srv s = register_metric_items srv s (metrics_uuid s)"

subsection \<open>\<^verbatim>\<open>_retrive_threshold\<close>\<close>

text \<open>
  The first loop of \<^verbatim>\<open>_retrive_threshold\<close>, over the metrics fetched from the registry
  (\<^verbatim>\<open>list(metrics)\<close>, the pages of \<^verbatim>\<open>api_iterator\<close>): it deletes remotely the metrics the
  agent no longer sends, and collects the identifiers and thresholds of the others.
\<close>

fun retrive_threshold_fetch ::
  "registry \<Rightarrow> connector \<Rightarrow> json list \<Rightarrow> pyval set \<Rightarrow> (pyval \<times> pyval, json) pydict
     \<Rightarrow> (connector \<times> pyval set \<times> (pyval \<times> pyval, json) pydict) flow" where
  "retrive_threshold_fetch srv s [] metrics_registered thresholds' =
     Next (s, metrics_registered, thresholds')"
| "retrive_threshold_fetch srv s (data # metrics) metrics_registered thresholds' =
     (case getitem data ''last_status'' of
        Inl e \<Rightarrow> Raise e
      | Inr last_status \<Rightarrow>
          (case getitem data ''label'' of
             Inl e \<Rightarrow> Raise e
           | Inr label \<Rightarrow>
               (case sent_metric s label (last_status \<noteq> PNone) of
                  Inl e \<Rightarrow> Raise e
                | Inr False \<Rightarrow>
                    (case getitem data ''id'' of
                       Inl e \<Rightarrow> Raise e
                     | Inr metric_id \<Rightarrow>
                         (case http srv s (Delete ''metric'' metric_id) of
                            (response, s1) \<Rightarrow>
                              if fst response \<noteq> 204
                              then Return (s1, metrics_registered, thresholds')
                              else retrive_threshold_fetch srv s1 metrics
                                     metrics_registered thresholds'))
                | Inr True \<Rightarrow>
                    (case getitem data ''id'' of
                       Inl e \<Rightarrow> Raise e
                     | Inr metric_id \<Rightarrow>
                         (case getitem data ''item'' of
                            Inl e \<Rightarrow> Raise e
                          | Inr item \<Rightarrow>
                              (case threshold_of data of
                                 Inl e \<Rightarrow> Raise e
                               | Inr threshold \<Rightarrow>
                                   retrive_threshold_fetch srv s metrics
                                     (insert metric_id metrics_registered)
                                     (setitem thresholds'
                                        (label, if item = PStr [] then PNone else item)
                                        threshold)))))))"

text \<open>
  The second loop, under the lock, over \<^verbatim>\<open>list(self.metrics_uuid.keys())\<close>: an entry whose
  identifier is not \<^verbatim>\<open>None\<close> and not among the fetched ones is deleted from the cache.
\<close>

fun retrive_threshold_purge ::
  "pyval set \<Rightarrow> key list \<Rightarrow> (key, pyval) pydict \<Rightarrow> (pyval \<times> pyval) list
     \<Rightarrow> error + (key, pyval) pydict \<times> (pyval \<times> pyval) list" where
  "retrive_threshold_purge metrics_registered [] uuids deleted_metrics =
     Inr (uuids, deleted_metrics)"
| "retrive_threshold_purge metrics_registered (k # keys) uuids deleted_metrics =
     (case getitem uuids k of
        Inl e \<Rightarrow> Inl e
      | Inr v \<Rightarrow>
          if v = PNone \<or> v \<in> metrics_registered
          then retrive_threshold_purge metrics_registered keys uuids deleted_metrics
          else (case delitem uuids k of
                  Inl e \<Rightarrow> Inl e
                | Inr uuids' \<Rightarrow>
                    retrive_threshold_purge metrics_registered keys uuids'
                      (deleted_metrics @ [(fst k, snd (snd k))])))"

text \<open>
  The whole method. The purge of \<^verbatim>\<open>core.last_metrics\<close> by \<^verbatim>\<open>core.purge_metrics\<close> at its
  end is outside the connector's state.
\<close>

definition retrive_threshold :: "registry \<Rightarrow> json list \<Rightarrow> connector \<Rightarrow> connector flow" where
  "retrive_threshold srv metrics s =
     (case retrive_threshold_fetch srv s metrics {} [] of
        Raise e \<Rightarrow> Raise e
      | Return (s1, metrics_registered, thresholds') \<Rightarrow> Return s1
      | Next (s1, metrics_registered, thresholds') \<Rightarrow>
          (case retrive_threshold_purge metrics_registered (map fst (metrics_uuid s1))
                  (metrics_uuid s1) [] of
             Inl e \<Rightarrow> Raise e
           | Inr (uuids, deleted_metrics) \<Rightarrow>
               Next (s1\<lparr>thresholds := thresholds', metrics_uuid := uuids\<rparr>)))"

subsection \<open>\<^verbatim>\<open>_register_containers\<close>\<close>

text \<open>
  What the method takes from the Python library: the SHA-1 digest of the inspect data
  serialised with sorted keys, \<^verbatim>\<open>json.dumps\<close> of the inspect data, and the order in which
  a \<^verbatim>\<open>set\<close> built from the given names is iterated.
\<close>

record runtime =
  sha1_json :: "jvalue \<Rightarrow> string"
  json_dumps :: "jvalue \<Rightarrow> string"
  set_order :: "pyval list \<Rightarrow> pyval list"

text \<open>
  \<^verbatim>\<open>obj.get(k, d)\<close> on inspect data: only a dictionary has \<^verbatim>\<open>get\<close>. Then
  \<^verbatim>\<open>obj.get(k1, d1).get(k2, d2)\<close>, \<^verbatim>\<open>' '.join(cmd)\<close> (which iterates a list, a string or
  the keys of a dictionary, and accepts strings only) and \<^verbatim>\<open>convert_docker_date\<close>.
\<close>

definition jvalue_get :: "jvalue \<Rightarrow> string \<Rightarrow> jvalue \<Rightarrow> error + jvalue" where
  "jvalue_get obj k dflt =
     (case obj of
        IDict d \<Rightarrow> Inr (case map_of d k of None \<Rightarrow> dflt | Some v \<Rightarrow> v)
      | INone \<Rightarrow> Inl AttributeError
      | IStr x \<Rightarrow> Inl AttributeError
      | INum n \<Rightarrow> Inl AttributeError
      | IBool b \<Rightarrow> Inl AttributeError
      | IList xs \<Rightarrow> Inl AttributeError)"

definition jvalue_get2 ::
  "jvalue \<Rightarrow> string \<Rightarrow> jvalue \<Rightarrow> string \<Rightarrow> jvalue \<Rightarrow> error + jvalue" where
  "jvalue_get2 obj k1 d1 k2 d2 =
     (case jvalue_get obj k1 d1 of Inl e \<Rightarrow> Inl e | Inr v \<Rightarrow> jvalue_get v k2 d2)"

fun join_space :: "string list \<Rightarrow> string" where
  "join_space [] = []"
| "join_space [x] = x"
| "join_space (x # y # ys) = x @ '' '' @ join_space (y # ys)"

fun strings_of :: "jvalue list \<Rightarrow> error + string list" where
  "strings_of [] = Inr []"
| "strings_of (IStr x # xs) =
     (case strings_of xs of Inl e \<Rightarrow> Inl e | Inr ys \<Rightarrow> Inr (x # ys))"
| "strings_of (x # xs) = Inl TypeError"

definition join_cmd :: "jvalue \<Rightarrow> error + string" where
  "join_cmd cmd =
     (case cmd of
        IList xs \<Rightarrow> (case strings_of xs of Inl e \<Rightarrow> Inl e | Inr ys \<Rightarrow> Inr (join_space ys))
      | IStr x \<Rightarrow> Inr (join_space (map (\<lambda>c. [c]) x))
      | IDict d \<Rightarrow> Inr (join_space (map fst d))
      | INone \<Rightarrow> Inl TypeError
      | INum n \<Rightarrow> Inl TypeError
      | IBool b \<Rightarrow> Inl TypeError)"

definition convert_docker_date :: "jvalue \<Rightarrow> jvalue" where
  "convert_docker_date input_date =
     (if input_date = INone then INone
      else if input_date = IStr ''0001-01-01T00:00:00Z'' then INone
      else input_date)"

definition of_pyval :: "pyval \<Rightarrow> jvalue" where
  "of_pyval v = (case v of PNone \<Rightarrow> INone | PStr x \<Rightarrow> IStr x | PNum n \<Rightarrow> INum n)"

text \<open>
  The command and the payload of a container, with every step of the source that can
  raise, in the order of evaluation: \<^verbatim>\<open>cmd\<close> first, then the entries of the dictionary.
\<close>

definition container_payload ::
  "runtime \<Rightarrow> connector \<Rightarrow> pyval \<Rightarrow> jvalue \<Rightarrow> error + (string \<times> jvalue) list" where
  "container_payload rt s name inspect =
     (case jvalue_get2 inspect ''Config'' (IDict []) ''Cmd'' (IList []) of
        Inl e \<Rightarrow> Inl e
      | Inr cmd \<Rightarrow>
     (case join_cmd (if cmd = INone then IList [] else cmd) of
        Inl e \<Rightarrow> Inl e
      | Inr command \<Rightarrow>
     (case jvalue_get2 inspect ''State'' (IDict []) ''Status'' (IStr []) of
        Inl e \<Rightarrow> Inl e
      | Inr docker_status \<Rightarrow>
     (case jvalue_get inspect ''Created'' INone of
        Inl e \<Rightarrow> Inl e
      | Inr created \<Rightarrow>
     (case jvalue_get2 inspect ''State'' (IDict []) ''StartedAt'' INone of
        Inl e \<Rightarrow> Inl e
      | Inr started_at \<Rightarrow>
     (case jvalue_get2 inspect ''State'' (IDict []) ''FinishedAt'' INone of
        Inl e \<Rightarrow> Inl e
      | Inr finished_at \<Rightarrow>
     (case jvalue_get inspect ''Id'' (IStr []) of
        Inl e \<Rightarrow> Inl e
      | Inr docker_id \<Rightarrow>
     (case jvalue_get inspect ''Image'' (IStr []) of
        Inl e \<Rightarrow> Inl e
      | Inr image_id \<Rightarrow>
     (case jvalue_get2 inspect ''Config'' (IStr []) ''Image'' (IStr []) of
        Inl e \<Rightarrow> Inl e
      | Inr image_name \<Rightarrow>
          Inr [(''host'', IStr (agent_uuid s)),
               (''name'', of_pyval name),
               (''command'', IStr command),
               (''docker_status'', docker_status),
               (''docker_created_at'', convert_docker_date created),
               (''docker_started_at'', convert_docker_date started_at),
               (''docker_finished_at'', convert_docker_date finished_at),
               (''docker_api_version'', of_pyval (docker_api_version s)),
               (''docker_id'', docker_id),
               (''docker_image_id'', image_id),
               (''docker_image_name'', image_name),
               (''docker_inspect'', IStr (json_dumps rt inspect))])))))))))"

text \<open>
  One iteration of the first loop, which creates or updates a container whose inspect
  data changed. A cached identifier that is not a string cannot be joined to the URL
  (\<^verbatim>\<open>TypeError\<close>).
\<close>

definition register_container_one ::
  "registry \<Rightarrow> runtime \<Rightarrow> connector \<Rightarrow> pyval \<times> jvalue \<Rightarrow> error + connector" where
  "register_container_one srv rt s entry =
     (case entry of (name, inspect) \<Rightarrow>
      (case (case map_of (docker_container_uuid s) name of
               None \<Rightarrow> (PNone, PNone) | Some cached \<Rightarrow> cached) of
         (old_hash, obj_uuid) \<Rightarrow>
           if old_hash = PStr (sha1_json rt inspect) then Inr s
           else
             (case (case obj_uuid of
                      PNone \<Rightarrow> Inr (\<lambda>payload. PostJ ''container'' payload)
                    | PStr u \<Rightarrow> Inr (\<lambda>payload. PutJ ''container'' obj_uuid payload)
                    | PNum n \<Rightarrow> Inl TypeError) of
                Inl e \<Rightarrow> Inl e
              | Inr call \<Rightarrow>
                  (case container_payload rt s name inspect of
                     Inl e \<Rightarrow> Inl e
                   | Inr payload \<Rightarrow>
                       (case http srv s (call payload) of (response, s1) \<Rightarrow>
                          if fst response \<noteq> 200 \<and> fst response \<noteq> 201 then Inr s1
                          else
                            (case getitem (snd response) ''id'' of
                               Inl e \<Rightarrow> Inl e
                             | Inr new_uuid \<Rightarrow>
                                 Inr (s1\<lparr>docker_container_uuid :=
                                           setitem (docker_container_uuid s1) name
                                             (PStr (sha1_json rt inspect), new_uuid)\<rparr>)))))))"

fun register_containers_update ::
  "registry \<Rightarrow> runtime \<Rightarrow> connector \<Rightarrow> (pyval \<times> jvalue) list \<Rightarrow> error + connector" where
  "register_containers_update srv rt s [] = Inr s"
| "register_containers_update srv rt s (entry # containers) =
     (case register_container_one srv rt s entry of
        Inl e \<Rightarrow> Inl e
      | Inr s1 \<Rightarrow> register_containers_update srv rt s1 containers)"

text \<open>
  The second loop, over \<^verbatim>\<open>set(container_uuid) - set(self.core.docker_containers)\<close>, at the
  clock value \<open>now\<close>.
\<close>

fun register_containers_delete ::
  "registry \<Rightarrow> nat \<Rightarrow> connector \<Rightarrow> pyval list \<Rightarrow> error + connector" where
  "register_containers_delete srv now s [] = Inr s"
| "register_containers_delete srv now s (name # deleted_containers) =
     (case getitem (docker_container_uuid s) name of
        Inl e \<Rightarrow> Inl e
      | Inr (old_hash, obj_uuid) \<Rightarrow>
          (case obj_uuid of
             PStr u \<Rightarrow>
               (case http srv s (Delete ''container'' obj_uuid) of (response, s1) \<Rightarrow>
                  if fst response \<noteq> 204 \<and> fst response \<noteq> 404
                  then register_containers_delete srv now s1 deleted_containers
                  else
                    (case delitem (docker_container_uuid s1) name of
                       Inl e \<Rightarrow> Inl e
                     | Inr container_uuid \<Rightarrow>
                         register_containers_delete srv now
                           (s1\<lparr>docker_container_uuid := container_uuid,
                                last_containers_removed := now\<rparr>)
                           deleted_containers))
           | PNone \<Rightarrow> Inl TypeError
           | PNum n \<Rightarrow> Inl TypeError))"

definition register_containers ::
  "registry \<Rightarrow> runtime \<Rightarrow> nat \<Rightarrow> connector \<Rightarrow> error + connector" where
  "register_containers srv rt now s =
     (case register_containers_update srv rt s (docker_containers s) of
        Inl e \<Rightarrow> Inl e
      | Inr s1 \<Rightarrow>
          register_containers_delete srv now s1
            (set_order rt
               (filter (\<lambda>name. \<not> has_key (docker_containers s1) name)
                  (map fst (docker_container_uuid s1)))))"

section \<open>Vocabulary of the properties\<close>

text \<open>
  The identity of a point, as \<^verbatim>\<open>emit_metric\<close> and \<^verbatim>\<open>_loop\<close> both compute it; \<open>None\<close>
  when the point has no \<^verbatim>\<open>measurement\<close>.
\<close>

definition identity_of :: "json \<Rightarrow> key option" where
  "identity_of metric =
     (case map_of metric ''measurement'' of
        None \<Rightarrow> None
      | Some name \<Rightarrow> Some (name, dict_get metric ''service'', dict_get metric ''item''))"

text \<open>
  What the drain loop reads from the cache for a point: \<^verbatim>\<open>metrics_uuid.get(key, 'deleted')\<close>.
  A point is unresolved when this is \<^verbatim>\<open>None\<close>; a batch entry is deliverable when it is a
  queued point with the concrete identifier of the cache attached.
\<close>

definition cached_uuid :: "(key, pyval) pydict \<Rightarrow> json \<Rightarrow> pyval option" where
  "cached_uuid uuids metric =
     (case identity_of metric of
        None \<Rightarrow> None
      | Some k \<Rightarrow> Some (case map_of uuids k of None \<Rightarrow> PStr ''deleted'' | Some v \<Rightarrow> v))"

definition unresolved :: "(key, pyval) pydict \<Rightarrow> point \<Rightarrow> bool" where
  "unresolved uuids metric = (cached_uuid uuids (snd metric) = Some PNone)"

definition deliverable :: "(key, pyval) pydict \<Rightarrow> point list \<Rightarrow> json \<Rightarrow> bool" where
  "deliverable uuids queue sent =
     (\<exists>metric v. metric \<in> set queue \<and> cached_uuid uuids (snd metric) = Some v
        \<and> v \<noteq> PNone \<and> v \<noteq> PStr ''deleted'' \<and> sent = setitem (snd metric) ''uuid'' v)"

text \<open>What one run of the \<^verbatim>\<open>while\<close> loop guarantees about its result.\<close>

definition drained ::
  "(key, pyval) pydict \<Rightarrow> point list \<Rightarrow> point list \<Rightarrow> json list
     \<Rightarrow> (error + point list \<times> json list) \<Rightarrow> bool" where
  "drained u front rq ms r =
     (case r of
        Inl e \<Rightarrow> True
      | Inr (q', ms') \<Rightarrow>
          (\<exists>added. ms' = ms @ added \<and> (\<forall>b \<in> set added. deliverable u front b))
          \<and> length ms' \<le> 1001
          \<and> filter_mset (unresolved u) (mset q') = filter_mset (unresolved u) (mset (front @ rq)))"

subsection \<open>Example states\<close>

definition example_connector :: connector where
  "example_connector =
     \<lparr>metric_queue = [],
      metrics_uuid = [((PStr ''agent_status'', PNone, PNone), PNone)],
      metrics_info = [((PStr ''agent_status'', PNone, PNone), [])],
      services_uuid = [],
      mqtt_queue_size = 0,
      connected = False,
      last_containers_removed = 0,
      mqtt_published = [],
      mqtt_subscribed = [],
      http_calls = [],
      alerting_mode = False,
      alerting_metric = Some [PStr ''cpu_used''],
      is_terminating = False,
      upgrade_in_progress = False,
      docker_containers = [],
      docker_container_uuid = [],
      thresholds = [],
      agent_uuid = ''agent-1'',
      public_ip = PNone,
      docker_api_version = PStr ''1.24''\<rparr>"

definition waiting_connector :: connector where
  "waiting_connector =
     example_connector
       \<lparr>metric_queue :=
          [(0, [(''measurement'', PStr ''mysql_status''), (''service'', PStr ''mysql'')]),
           (1, [(''measurement'', PStr ''cpu_used''), (''value'', PNum 7)])],
        metrics_uuid :=
          [((PStr ''agent_status'', PNone, PNone), PStr ''m-0''),
           ((PStr ''mysql_status'', PStr ''mysql'', PNone), PNone),
           ((PStr ''cpu_used'', PNone, PNone), PStr ''m-1'')]\<rparr>"

definition backlog_connector :: connector where
  "backlog_connector =
     example_connector
       \<lparr>metric_queue := map (\<lambda>i. (i, [(''measurement'', PStr ''cpu_used'')])) [0..<1001],
        metrics_uuid := [((PStr ''cpu_used'', PNone, PNone), PStr ''m-1'')]\<rparr>"

definition status_point :: point where
  "status_point = (0, [(''measurement'', PStr ''mysql_status''), (''service'', PStr ''mysql''),
                       (''status'', PNum 0), (''status_of'', PStr ''mysql_queries'')])"

definition other_point :: point where
  "other_point = (1, [(''measurement'', PStr ''mysql_status''), (''service'', PStr ''mysql''),
                      (''status'', PNum 2), (''container'', PStr ''db1'')])"

definition load_point :: point where
  "load_point = (2, [(''measurement'', PStr ''load1''), (''value'', PNum 3)])"

definition nearly_full_connector :: connector where
  "nearly_full_connector = example_connector\<lparr>metric_queue := replicate 99999 load_point\<rparr>"

definition congested_connector :: connector where
  "congested_connector = example_connector\<lparr>mqtt_queue_size := 2001, connected := True\<rparr>"

definition plain_info :: json where
  "plain_info = [(''status_of'', PNone), (''instance'', PNone), (''container'', PNone)]"

definition accepted :: response where
  "accepted = (201, [(''id'', PStr ''m-9''), (''threshold_low_warning'', PNone),
                     (''threshold_low_critical'', PNone), (''threshold_high_warning'', PNone),
                     (''threshold_high_critical'', PNone)])"

definition accepting_registry :: registry where
  "accepting_registry history req = accepted"

definition rejecting_registry :: registry where
  "rejecting_registry history req =
     (if req = Post ''metric'' [(''agent'', PStr ''agent-1''), (''label'', PStr ''cpu_used'')]
      then (400, []) else accepted)"

definition pending_connector :: connector where
  "pending_connector =
     example_connector
       \<lparr>metrics_uuid := [((PStr ''agent_status'', PNone, PNone), PStr ''m-0''),
                         ((PStr ''cpu_used'', PNone, PNone), PNone),
                         ((PStr ''mem_used'', PNone, PNone), PNone)],
        metrics_info := [((PStr ''agent_status'', PNone, PNone), []),
                         ((PStr ''cpu_used'', PNone, PNone), plain_info),
                         ((PStr ''mem_used'', PNone, PNone), plain_info)]\<rparr>"

definition orphan_connector :: connector where
  "orphan_connector =
     example_connector
       \<lparr>metrics_uuid := [((PStr ''agent_status'', PNone, PNone), PStr ''m-0''),
                         ((PStr ''cpu_used'', PNone, PNone), PNone),
                         ((PStr ''mysql_status'', PStr ''mysql'', PNone), PNone)],
        metrics_info := [((PStr ''agent_status'', PNone, PNone), []),
                         ((PStr ''cpu_used'', PNone, PNone), plain_info),
                         ((PStr ''mysql_status'', PStr ''mysql'', PNone),
                          [(''status_of'', PStr ''mysql_queries''), (''instance'', PNone),
                           (''container'', PNone)])]\<rparr>"

definition registered_connector :: connector where
  "registered_connector =
     example_connector
       \<lparr>metrics_uuid := [((PStr ''agent_status'', PNone, PNone), PStr ''m-0''),
                         ((PStr ''cpu_used'', PNone, PNone), PStr ''m-1'')],
        metrics_info := [((PStr ''agent_status'', PNone, PNone), []),
                         ((PStr ''cpu_used'', PNone, PNone), plain_info)]\<rparr>"

definition remote_metrics :: "json list" where
  "remote_metrics =
     [[(''id'', PStr ''m-0''), (''label'', PStr ''agent_status''), (''item'', PStr []),
       (''last_status'', PNum 0), (''threshold_low_warning'', PNone),
       (''threshold_low_critical'', PNone), (''threshold_high_warning'', PNone),
       (''threshold_high_critical'', PNone)]]"

definition cpu_point :: point where
  "cpu_point = (3, [(''measurement'', PStr ''cpu_used''), (''value'', PNum 12)])"

definition refreshed_connector :: connector where
  "refreshed_connector =
     registered_connector
       \<lparr>thresholds := [((PStr ''agent_status'', PNone),
                        [(''low_warning'', PNone), (''low_critical'', PNone),
                         (''high_warning'', PNone), (''high_critical'', PNone)])],
        metrics_uuid := [((PStr ''agent_status'', PNone, PNone), PStr ''m-0'')]\<rparr>"

definition reemitted_connector :: connector where
  "reemitted_connector =
     refreshed_connector
       \<lparr>metric_queue := [cpu_point],
        metrics_uuid := [((PStr ''agent_status'', PNone, PNone), PStr ''m-0''),
                         ((PStr ''cpu_used'', PNone, PNone), PNone)]\<rparr>"

definition agent_point :: point where
  "agent_point = (4, [(''measurement'', PStr ''agent_status''), (''status'', PNum 0)])"

definition db1_inspect :: jvalue where
  "db1_inspect =
     IDict [(''Id'', IStr ''4fa6e0f0''),
            (''Created'', IStr ''2016-05-02T10:00:00Z''),
            (''Image'', IStr ''sha256:9f1e''),
            (''Config'', IDict [(''Cmd'', IList [IStr ''mysqld'', IStr ''--verbose'']),
                                (''Image'', IStr ''mysql:5.7'')]),
            (''State'', IDict [(''Status'', IStr ''running''),
                               (''StartedAt'', IStr ''2016-05-02T10:00:01Z''),
                               (''FinishedAt'', IStr ''0001-01-01T00:00:00Z'')])]"

definition container_connector :: connector where
  "container_connector =
     example_connector
       \<lparr>docker_containers := [(PStr ''db1'', db1_inspect)],
        docker_container_uuid := [(PStr ''web1'', (PStr ''H1'', PStr ''c-1''))]\<rparr>"

definition container_registry :: registry where
  "container_registry history req =
     (case req of
        Delete collection obj_uuid \<Rightarrow> (204, [])
      | Post collection payload \<Rightarrow> (201, [(''id'', PStr ''c-2'')])
      | Put collection obj_uuid payload \<Rightarrow> (200, [(''id'', obj_uuid)])
      | PostJ collection payload \<Rightarrow> (201, [(''id'', PStr ''c-2'')])
      | PutJ collection obj_uuid payload \<Rightarrow> (200, [(''id'', obj_uuid)]))"

definition example_runtime :: runtime where
  "example_runtime =
     \<lparr>sha1_json = (\<lambda>inspect. if inspect = db1_inspect then ''H2'' else ''H0''),
      json_dumps = (\<lambda>inspect. ''{...}''),
      set_order = rev\<rparr>"

definition db1_payload :: "(string \<times> jvalue) list" where
  "db1_payload =
     [(''host'', IStr ''agent-1''), (''name'', IStr ''db1''),
      (''command'', IStr ''mysqld --verbose''), (''docker_status'', IStr ''running''),
      (''docker_created_at'', IStr ''2016-05-02T10:00:00Z''),
      (''docker_started_at'', IStr ''2016-05-02T10:00:01Z''),
      (''docker_finished_at'', INone), (''docker_api_version'', IStr ''1.24''),
      (''docker_id'', IStr ''4fa6e0f0''), (''docker_image_id'', IStr ''sha256:9f1e''),
      (''docker_image_name'', IStr ''mysql:5.7''), (''docker_inspect'', IStr ''{...}'')]"

section \<open>Dictionaries\<close>

lemma has_key_iff: "has_key d k \<longleftrightarrow> k \<in> fst ` set d"
  unfolding has_key_def using map_of_eq_None_iff[of d k] by (cases "map_of d k") auto

lemma has_key_setdefault: "has_key (setdefault d k v) k"
  by (auto simp: setdefault_def has_key_iff)

lemma has_key_setdefault_other: "has_key d k' \<Longrightarrow> has_key (setdefault d k v) k'"
  by (auto simp: setdefault_def has_key_iff)

lemma setdefault_present: "has_key d k \<Longrightarrow> setdefault d k v = d"
  by (simp add: setdefault_def)

lemma map_of_setdefault_new: "\<not> has_key d k \<Longrightarrow> map_of (setdefault d k v) k = Some v"
  by (auto simp: setdefault_def has_key_def map_add_def split: option.splits)

section \<open>Properties of emission\<close>

lemma emit_metric_cases:
  assumes "emit_metric s metric = Inr s'"
  obtains (dropped) "s' = s"
  | (sent) name where "getitem (snd metric) ''measurement'' = Inr name"
      "sent_metric s name (dict_get (snd metric) ''status'' \<noteq> PNone) = Inr True"
      "metric_queue s' = (if length (metric_queue s) < 100000 then metric_queue s @ [metric] else metric_queue s)"
      "metrics_info s' = setdefault (metrics_info s) (name, dict_get (snd metric) ''service'', dict_get (snd metric) ''item'')
          [(''status_of'', dict_get (snd metric) ''status_of''),
           (''instance'', dict_get (snd metric) ''instance''),
           (''container'', dict_get (snd metric) ''container'')]"
      "metrics_uuid s' = setdefault (metrics_uuid s) (name, dict_get (snd metric) ''service'', dict_get (snd metric) ''item'') PNone"
      "http_calls s' = http_calls s" "mqtt_published s' = mqtt_published s"
      "alerting_mode s' = alerting_mode s" "alerting_metric s' = alerting_metric s"
  using assms
  by (auto simp: emit_metric_def Let_def setdefault_present split: sum.splits bool.splits if_splits)

lemma identity_of_Some:
  "identity_of m = Some k \<longleftrightarrow>
     (\<exists>name. getitem m ''measurement'' = Inr name \<and> k = (name, dict_get m ''service'', dict_get m ''item''))"
  by (auto simp: identity_of_def getitem_def split: option.splits)

lemma sent_metric_frame:
  "alerting_mode s' = alerting_mode s \<Longrightarrow> alerting_metric s' = alerting_metric s
     \<Longrightarrow> sent_metric s' n b = sent_metric s n b"
  by (simp add: sent_metric_def)

lemma emit_metric_recorded:
  assumes "identity_of (snd other) = Some k" "has_key (metrics_info s) k"
    "emit_metric s other = Inr s'"
  shows "metrics_info s' = metrics_info s"
  using assms(3)
proof (cases rule: emit_metric_cases)
  case dropped
  then show ?thesis by simp
next
  case (sent name)
  with assms(1,2) show ?thesis
    by (auto simp: identity_of_Some setdefault_present)
qed

lemma emit_metric_twice:
  assumes "emit_metric s metric = Inr s1"
  shows "\<exists>s2. emit_metric s1 metric = Inr s2 \<and> metrics_info s2 = metrics_info s1
            \<and> metrics_uuid s2 = metrics_uuid s1"
  using assms
proof (cases rule: emit_metric_cases)
  case dropped
  with assms show ?thesis by auto
next
  case (sent name)
  have fr: "sent_metric s1 name (dict_get (snd metric) ''status'' \<noteq> PNone) = Inr True"
    using sent(2) sent_metric_frame[OF sent(8,9)] by simp
  show ?thesis
    using sent(1) fr
    by (simp add: emit_metric_def Let_def sent(4,5) has_key_setdefault)
qed

lemma emit_metric_sent:
  assumes "getitem (snd metric) ''measurement'' = Inr name" "\<not> alerting_mode s"
  shows "\<exists>s'. emit_metric s metric = Inr s' \<and> \<not> alerting_mode s'
           \<and> metric_queue s' = (if length (metric_queue s) < 100000
                                 then metric_queue s @ [metric] else metric_queue s)
           \<and> has_key (metrics_info s')
                (name, dict_get (snd metric) ''service'', dict_get (snd metric) ''item'')
           \<and> has_key (metrics_uuid s')
                (name, dict_get (snd metric) ''service'', dict_get (snd metric) ''item'')"
  using assms
  by (auto simp: emit_metric_def sent_metric_def Let_def has_key_setdefault)

text \<open>
  Claim C6. Recording metric info is first-write-wins and idempotent: once the metadata of
  an identity is recorded in \<open>metrics_info\<close>, an emission of the same identity, whatever
  metadata it carries, leaves \<open>metrics_info\<close> as it is; and emitting a point a second time
  changes neither \<open>metrics_info\<close> nor \<open>metrics_uuid\<close>.
\<close>

theorem emit_metric_first_write_wins:
  "(\<forall>other k s2. identity_of (snd other) = Some k \<longrightarrow> has_key (metrics_info s1) k
        \<longrightarrow> emit_metric s1 other = Inr s2 \<longrightarrow> metrics_info s2 = metrics_info s1)
   \<and> (\<forall>metric s. emit_metric s metric = Inr s1 \<longrightarrow>
         (\<exists>s2. emit_metric s1 metric = Inr s2 \<and> metrics_info s2 = metrics_info s1
            \<and> metrics_uuid s2 = metrics_uuid s1))"
  using emit_metric_recorded emit_metric_twice by blast

theorem emit_metric_first_write_wins_witness:
  "\<exists>s1 s2 s3. emit_metric example_connector status_point = Inr s1
     \<and> identity_of (snd other_point) = Some (PStr ''mysql_status'', PStr ''mysql'', PNone)
     \<and> has_key (metrics_info s1) (PStr ''mysql_status'', PStr ''mysql'', PNone)
     \<and> dict_get (snd other_point) ''status_of'' \<noteq> dict_get (snd status_point) ''status_of''
     \<and> emit_metric s1 other_point = Inr s2 \<and> metrics_info s2 = metrics_info s1
     \<and> emit_metric s1 status_point = Inr s3 \<and> metrics_info s3 = metrics_info s1
     \<and> metrics_uuid s3 = metrics_uuid s1"
proof -
  have m: "getitem (snd status_point) ''measurement'' = Inr (PStr ''mysql_status'')"
    "getitem (snd other_point) ''measurement'' = Inr (PStr ''mysql_status'')"
    by (simp_all add: status_point_def other_point_def getitem_def)
  have na: "\<not> alerting_mode example_connector" by (simp add: example_connector_def)
  from emit_metric_sent[OF m(1) na] obtain s1 where
    s1: "emit_metric example_connector status_point = Inr s1" "\<not> alerting_mode s1"
      "has_key (metrics_info s1) (PStr ''mysql_status'', PStr ''mysql'', PNone)"
    by (auto simp: status_point_def dict_get_def)
  from emit_metric_sent[OF m(2) s1(2)] obtain s2 where
    s2: "emit_metric s1 other_point = Inr s2" by blast
  have i: "identity_of (snd other_point) = Some (PStr ''mysql_status'', PStr ''mysql'', PNone)"
    by (simp add: identity_of_def other_point_def dict_get_def)
  have d: "dict_get (snd other_point) ''status_of'' \<noteq> dict_get (snd status_point) ''status_of''"
    by (simp add: status_point_def other_point_def dict_get_def)
  from emit_metric_first_write_wins[of s1] i s1 s2 d show ?thesis
    by blast
qed

lemma emit_metric_queue_bound:
  "emit_metric s metric = Inr s' \<Longrightarrow>
     length (metric_queue s') \<le> max 100000 (length (metric_queue s))"
  by (erule emit_metric_cases) auto

lemma emit_metric_no_io:
  "emit_metric s metric = Inr s' \<Longrightarrow>
     http_calls s' = http_calls s \<and> mqtt_published s' = mqtt_published s"
  by (erule emit_metric_cases) auto

lemma emit_metric_full:
  "100000 \<le> length (metric_queue s) \<Longrightarrow> emit_metric s metric = Inr s' \<Longrightarrow>
     metric_queue s' = metric_queue s"
  by (erule emit_metric_cases) auto

lemma emit_metrics_bound:
  "emit_metrics s points = Inr s' \<Longrightarrow>
     length (metric_queue s') \<le> max 100000 (length (metric_queue s))
     \<and> http_calls s' = http_calls s \<and> mqtt_published s' = mqtt_published s"
proof (induction points arbitrary: s)
  case Nil
  then show ?case by simp
next
  case (Cons p ps)
  then obtain s1 where s1: "emit_metric s p = Inr s1" "emit_metrics s1 ps = Inr s'"
    by (auto split: sum.splits)
  from Cons.IH[OF s1(2)] emit_metric_queue_bound[OF s1(1)] emit_metric_no_io[OF s1(1)]
  show ?case by auto
qed

text \<open>
  Claim C9. \<^verbatim>\<open>emit_metric\<close> keeps the outbound queue bounded and does no network I/O: after
  any sequence of emissions the queue holds at most 100000 points (or what it held before),
  no registry call and no MQTT message has been issued, and a point emitted while the queue
  holds 100000 points or more is dropped, not enqueued.
\<close>

theorem emit_metric_bounded_queue:
  assumes "emit_metrics s points = Inr s'"
  shows "length (metric_queue s') \<le> max 100000 (length (metric_queue s))
     \<and> http_calls s' = http_calls s \<and> mqtt_published s' = mqtt_published s
     \<and> (\<forall>metric s''. 100000 \<le> length (metric_queue s') \<longrightarrow> emit_metric s' metric = Inr s''
           \<longrightarrow> metric_queue s'' = metric_queue s' \<and> http_calls s'' = http_calls s')"
  using emit_metrics_bound[OF assms] emit_metric_full emit_metric_no_io by blast

theorem emit_metric_bounded_queue_witness:
  "\<exists>s' s''. emit_metrics nearly_full_connector [status_point, other_point] = Inr s'
     \<and> length (metric_queue s') \<le> max 100000 (length (metric_queue nearly_full_connector))
     \<and> http_calls s' = http_calls nearly_full_connector
     \<and> mqtt_published s' = mqtt_published nearly_full_connector
     \<and> 100000 \<le> length (metric_queue s')
     \<and> emit_metric s' load_point = Inr s'' \<and> metric_queue s'' = metric_queue s'
     \<and> http_calls s'' = http_calls s'"
proof -
  have m: "getitem (snd status_point) ''measurement'' = Inr (PStr ''mysql_status'')"
    "getitem (snd other_point) ''measurement'' = Inr (PStr ''mysql_status'')"
    "getitem (snd load_point) ''measurement'' = Inr (PStr ''load1'')"
    by (simp_all add: status_point_def other_point_def load_point_def getitem_def)
  have na: "\<not> alerting_mode nearly_full_connector"
    by (simp add: nearly_full_connector_def example_connector_def)
  from emit_metric_sent[OF m(1) na] obtain s1 where
    s1: "emit_metric nearly_full_connector status_point = Inr s1" "\<not> alerting_mode s1"
      "length (metric_queue s1) = 100000"
    by (auto simp: nearly_full_connector_def)
  from emit_metric_sent[OF m(2) s1(2)] obtain s2 where
    s2: "emit_metric s1 other_point = Inr s2" "\<not> alerting_mode s2"
      "length (metric_queue s2) = 100000"
    using s1(3) by auto
  from emit_metric_sent[OF m(3) s2(2)] obtain s3 where
    s3: "emit_metric s2 load_point = Inr s3" by blast
  have e: "emit_metrics nearly_full_connector [status_point, other_point] = Inr s2"
    using s1(1) s2(1) by simp
  note t = emit_metric_bounded_queue[OF e]
  from t have drop: "\<forall>metric s''. 100000 \<le> length (metric_queue s2)
      \<longrightarrow> emit_metric s2 metric = Inr s''
      \<longrightarrow> metric_queue s'' = metric_queue s2 \<and> http_calls s'' = http_calls s2"
    by blast
  have "metric_queue s3 = metric_queue s2 \<and> http_calls s3 = http_calls s2"
    using drop[rule_format, of load_point s3] s2(3) s3 by simp
  with t s2(3) s3 e show ?thesis
    by (intro exI[where x = s2] exI[where x = s3]) simp
qed

text \<open>
  Claim C10. In alerting mode a point whose name is not in the configured whitelist and
  whose status is absent or \<^verbatim>\<open>None\<close> is discarded: the state is unchanged, so the point
  is neither queued nor recorded. Outside alerting mode every point passes the filter, is
  recorded in \<open>metrics_info\<close> and \<open>metrics_uuid\<close>, and is queued while there is room.
\<close>

theorem emit_metric_alerting_filter:
  assumes "getitem (snd metric) ''measurement'' = Inr name"
  shows "(alerting_mode s \<and> alerting_metric s = Some whitelist \<and> name \<notin> set whitelist
            \<and> dict_get (snd metric) ''status'' = PNone \<longrightarrow> emit_metric s metric = Inr s)
     \<and> (\<not> alerting_mode s \<longrightarrow>
          sent_metric s name (dict_get (snd metric) ''status'' \<noteq> PNone) = Inr True
          \<and> (\<exists>s'. emit_metric s metric = Inr s'
                \<and> metric_queue s' = (if length (metric_queue s) < 100000
                                      then metric_queue s @ [metric] else metric_queue s)
                \<and> has_key (metrics_info s')
                     (name, dict_get (snd metric) ''service'', dict_get (snd metric) ''item'')
                \<and> has_key (metrics_uuid s')
                     (name, dict_get (snd metric) ''service'', dict_get (snd metric) ''item'')))"
  using assms
  by (auto simp: emit_metric_def sent_metric_def Let_def has_key_setdefault)

theorem emit_metric_alerting_filter_witness:
  "getitem (snd load_point) ''measurement'' = Inr (PStr ''load1'')
   \<and> alerting_mode (example_connector\<lparr>alerting_mode := True\<rparr>)
   \<and> alerting_metric (example_connector\<lparr>alerting_mode := True\<rparr>) = Some [PStr ''cpu_used'']
   \<and> PStr ''load1'' \<notin> set [PStr ''cpu_used'']
   \<and> dict_get (snd load_point) ''status'' = PNone
   \<and> emit_metric (example_connector\<lparr>alerting_mode := True\<rparr>) load_point
        = Inr (example_connector\<lparr>alerting_mode := True\<rparr>)
   \<and> \<not> alerting_mode example_connector
   \<and> (\<exists>s'. emit_metric example_connector load_point = Inr s'
         \<and> metric_queue s' = [load_point]
         \<and> has_key (metrics_uuid s') (PStr ''load1'', PNone, PNone))"
proof -
  have m: "getitem (snd load_point) ''measurement'' = Inr (PStr ''load1'')"
    by (simp add: load_point_def getitem_def)
  have d: "dict_get (snd load_point) ''status'' = PNone"
    "dict_get (snd load_point) ''service'' = PNone" "dict_get (snd load_point) ''item'' = PNone"
    by (simp_all add: load_point_def dict_get_def)
  have na: "\<not> alerting_mode example_connector"
    "length (metric_queue example_connector) < 100000" "metric_queue example_connector = []"
    by (simp_all add: example_connector_def)
  from emit_metric_alerting_filter[OF m, of example_connector] na d
  obtain s' where s': "emit_metric example_connector load_point = Inr s'"
    "metric_queue s' = [load_point]" "has_key (metrics_uuid s') (PStr ''load1'', PNone, PNone)"
    by auto
  have a: "emit_metric (example_connector\<lparr>alerting_mode := True\<rparr>) load_point
        = Inr (example_connector\<lparr>alerting_mode := True\<rparr>)"
    using emit_metric_alerting_filter[OF m, of "example_connector\<lparr>alerting_mode := True\<rparr>"
      "[PStr ''cpu_used'']"] d(1)
    by (simp add: example_connector_def)
  from s' a m d(1) na(1) show ?thesis
    by (simp add: example_connector_def)
qed

section \<open>Properties of the transport\<close>

text \<open>
  Claim C7. Above the ceiling \<open>MQTT_QUEUE_MAX_SIZE\<close> an ordinary message is dropped by
  \<^verbatim>\<open>publish\<close> and the disconnect announcement of \<^verbatim>\<open>run\<close> is still published; the
  connect announcement of \<^verbatim>\<open>on_connect\<close>, which does not pass \<^verbatim>\<open>force\<close>, is dropped
  like an ordinary message.
\<close>

theorem publish_ceiling:
  assumes "mqtt_queue_size s > MQTT_QUEUE_MAX_SIZE"
  shows "publish s topic msg False = s
     \<and> mqtt_published (on_connect s rc) = mqtt_published s
     \<and> (connected s \<and> \<not> upgrade_in_progress s \<longrightarrow>
          mqtt_published (run_disconnect s) =
            mqtt_published s @ [(''v1/agent/'' @ agent_uuid s @ ''/disconnect'',
                                 Obj [(''disconnect-cause'', PStr ''Clean shutdown'')])])"
  using assms by (simp add: publish_def on_connect_def run_disconnect_def Let_def)

theorem publish_ceiling_witness:
  "MQTT_QUEUE_MAX_SIZE < mqtt_queue_size congested_connector
   \<and> publish congested_connector ''v1/agent/agent-1/data'' (Batch [snd load_point]) False
       = congested_connector
   \<and> mqtt_published (on_connect congested_connector 0) = []
   \<and> connected (on_connect congested_connector 0)
   \<and> connected congested_connector \<and> \<not> upgrade_in_progress congested_connector
   \<and> mqtt_published (run_disconnect congested_connector)
       = [(''v1/agent/agent-1/disconnect'', Obj [(''disconnect-cause'', PStr ''Clean shutdown'')])]"
proof -
  have h: "MQTT_QUEUE_MAX_SIZE < mqtt_queue_size congested_connector"
    by (simp add: congested_connector_def MQTT_QUEUE_MAX_SIZE_def)
  have c: "connected (on_connect congested_connector 0)"
    by (simp add: on_connect_def publish_def Let_def congested_connector_def example_connector_def)
  from publish_ceiling[OF h, of "''v1/agent/agent-1/data''" "Batch [snd load_point]" 0] h c
  show ?thesis
    by (simp add: congested_connector_def example_connector_def)
qed

section \<open>Properties of the drain loop\<close>

lemma loop_while_Nil: "loop_while u [] ms rp = Some (Inr ([], ms))"
  by (subst loop_while.simps) simp

lemma loop_while_error:
  "cached_uuid u (snd p) = None \<Longrightarrow> loop_while u (p # q) ms rp = Some (Inl KeyError)"
  by (subst loop_while.simps)
     (auto simp: cached_uuid_def identity_of_def getitem_def split: option.splits)

lemma loop_while_deleted:
  "cached_uuid u (snd p) = Some (PStr ''deleted'') \<Longrightarrow>
     loop_while u (p # q) ms rp = loop_while u q ms rp"
  by (subst loop_while.simps)
     (auto simp: cached_uuid_def identity_of_def getitem_def Let_def split: option.splits)

lemma loop_while_unresolved:
  "cached_uuid u (snd p) = Some PNone \<Longrightarrow>
     loop_while u (p # q) ms rp =
       (if rp = Some (fst p) then Some (Inr (q @ [p], ms))
        else loop_while u (q @ [p]) ms (if rp = None then Some (fst p) else rp))"
  by (subst loop_while.simps)
     (auto simp: cached_uuid_def identity_of_def getitem_def Let_def split: option.splits)

lemma loop_while_resolved:
  "cached_uuid u (snd p) = Some v \<Longrightarrow> v \<noteq> PNone \<Longrightarrow> v \<noteq> PStr ''deleted'' \<Longrightarrow>
     loop_while u (p # q) ms rp =
       (if 1000 \<le> length ms then Some (Inr (q, ms @ [setitem (snd p) ''uuid'' v]))
        else loop_while u q (ms @ [setitem (snd p) ''uuid'' v]) rp)"
  by (subst loop_while.simps)
     (auto simp: cached_uuid_def identity_of_def getitem_def Let_def split: option.splits)

lemma deliverable_mono: "deliverable u q b \<Longrightarrow> set q \<subseteq> set q' \<Longrightarrow> deliverable u q' b"
  unfolding deliverable_def by blast

lemma drained_Cons:
  assumes "drained u front rq' ms' r"
    and "\<exists>added. ms' = ms @ added \<and> (\<forall>b \<in> set added. deliverable u (p # front) b)"
    and "filter_mset (unresolved u) (mset (front @ rq'))
           = filter_mset (unresolved u) (mset (p # front @ rq))"
  shows "drained u (p # front) rq ms r"
proof (cases r)
  case (Inl e)
  then show ?thesis by (simp add: drained_def)
next
  case (Inr qm)
  obtain q' ms'' where qm: "qm = (q', ms'')" by (cases qm)
  from assms(1) Inr qm obtain added where
    a: "ms'' = ms' @ added" "\<forall>b \<in> set added. deliverable u front b"
    and l: "length ms'' \<le> 1001"
    and f: "filter_mset (unresolved u) (mset q') = filter_mset (unresolved u) (mset (front @ rq'))"
    by (auto simp: drained_def)
  from assms(2) obtain added0 where
    a0: "ms' = ms @ added0" "\<forall>b \<in> set added0. deliverable u (p # front) b" by blast
  have "\<forall>b \<in> set (added0 @ added). deliverable u (p # front) b"
    using a(2) a0(2) by (auto intro: deliverable_mono[where q = front])
  moreover have "ms'' = ms @ (added0 @ added)" using a(1) a0(1) by simp
  ultimately have "\<exists>ad. ms'' = ms @ ad \<and> (\<forall>b \<in> set ad. deliverable u (p # front) b)"
    by blast
  with l f assms(3) Inr qm show ?thesis
    by (simp add: drained_def)
qed

lemma loop_while_total:
  assumes "\<forall>p \<in> set rq. unresolved u p"
    and "rp = (if rq = [] then None else Some (fst (hd rq)))"
    and "length ms \<le> 1000"
  shows "\<exists>r. loop_while u (front @ rq) ms rp = Some r \<and> drained u front rq ms r"
  using assms
proof (induction front arbitrary: rq ms rp)
  case Nil
  show ?case
  proof (cases rq)
    case Nil
    with Nil.prems show ?thesis
      by (simp add: loop_while_Nil drained_def)
  next
    case (Cons b bs)
    with Nil.prems have "cached_uuid u (snd b) = Some PNone" "rp = Some (fst b)"
      by (auto simp: unresolved_def)
    with Cons Nil.prems show ?thesis
      by (simp add: loop_while_unresolved drained_def)
  qed
next
  case (Cons p front)
  show ?case
  proof (cases "cached_uuid u (snd p)")
    case None
    then show ?thesis by (simp add: loop_while_error drained_def)
  next
    case (Some v)
    consider (del) "v = PStr ''deleted''" | (unres) "v = PNone"
      | (res) "v \<noteq> PNone" "v \<noteq> PStr ''deleted''" by blast
    then show ?thesis
    proof cases
      case del
      from Cons.IH[OF Cons.prems] obtain r where
        r: "loop_while u (front @ rq) ms rp = Some r" "drained u front rq ms r" by blast
      have "\<not> unresolved u p" using Some del by (simp add: unresolved_def)
      then have "drained u (p # front) rq ms r"
        using r(2) by (intro drained_Cons[where rq' = rq and ms' = ms]) auto
      with r(1) Some del show ?thesis by (simp add: loop_while_deleted)
    next
      case unres
      have un: "unresolved u p" using Some unres by (simp add: unresolved_def)
      show ?thesis
      proof (cases "rp = Some (fst p)")
        case True
        with Some unres Cons.prems(3) show ?thesis
          by (simp add: loop_while_unresolved drained_def)
      next
        case False
        let ?rp = "if rp = None then Some (fst p) else rp"
        have 1: "\<forall>x \<in> set (rq @ [p]). unresolved u x" using Cons.prems(1) un by auto
        have 2: "?rp = (if rq @ [p] = [] then None else Some (fst (hd (rq @ [p]))))"
          using Cons.prems(2) by (cases rq) auto
        from Cons.IH[OF 1 2 Cons.prems(3)] obtain r where
          r: "loop_while u (front @ rq @ [p]) ms ?rp = Some r"
             "drained u front (rq @ [p]) ms r" by blast
        have "drained u (p # front) rq ms r"
          using r(2) by (intro drained_Cons[where rq' = "rq @ [p]" and ms' = ms]) auto
        with r(1) Some unres False show ?thesis by (simp add: loop_while_unresolved)
      qed
    next
      case res
      let ?b = "setitem (snd p) ''uuid'' v"
      have d: "deliverable u (p # front) ?b"
        unfolding deliverable_def
        by (rule exI[where x = p], rule exI[where x = v]) (use Some res in simp)
      have nu: "\<not> unresolved u p" using Some res by (simp add: unresolved_def)
      show ?thesis
      proof (cases "1000 \<le> length ms")
        case True
        with Cons.prems(3) have "length ms = 1000" by simp
        with Some res d nu True show ?thesis
          by (simp add: loop_while_resolved drained_def)
      next
        case False
        then have 3: "length (ms @ [?b]) \<le> 1000" by simp
        from Cons.IH[OF Cons.prems(1,2) 3] obtain r where
          r: "loop_while u (front @ rq) (ms @ [?b]) rp = Some r"
             "drained u front rq (ms @ [?b]) r" by blast
        have "drained u (p # front) rq ms r"
          using r(2) d nu
          by (intro drained_Cons[where rq' = rq and ms' = "ms @ [?b]"]) auto
        with r(1) Some res False show ?thesis by (simp add: loop_while_resolved)
      qed
    qed
  qed
qed

lemma deliverable_uuid: "deliverable u q b \<Longrightarrow> dict_get b ''uuid'' \<noteq> PNone"
  by (auto simp: deliverable_def dict_get_def setitem_def update_conv')

lemma loop_result:
  "\<exists>r. loop s = Some r \<and>
     (\<forall>s'. r = Inr s' \<longrightarrow>
        metrics_uuid s' = metrics_uuid s
        \<and> filter_mset (unresolved (metrics_uuid s)) (mset (metric_queue s'))
            = filter_mset (unresolved (metrics_uuid s)) (mset (metric_queue s))
        \<and> (\<exists>new. mqtt_published s' = mqtt_published s @ new
              \<and> (\<forall>topic batch. (topic, Batch batch) \<in> set new \<longrightarrow>
                    (\<forall>sent \<in> set batch. deliverable (metrics_uuid s) (metric_queue s) sent
                        \<and> dict_get sent ''uuid'' \<noteq> PNone))))"
proof -
  from loop_while_total[of "[]" "metrics_uuid s" None "[]" "metric_queue s"]
  obtain r where r: "loop_while (metrics_uuid s) (metric_queue s) [] None = Some r"
    "drained (metrics_uuid s) (metric_queue s) [] [] r" by auto
  show ?thesis
  proof (cases r)
    case (Inl e)
    with r(1) show ?thesis by (simp add: loop_def)
  next
    case (Inr qm)
    obtain q ms where qm: "qm = (q, ms)" by (cases qm)
    from r(2) Inr qm have d: "\<forall>b \<in> set ms. deliverable (metrics_uuid s) (metric_queue s) b"
      and f: "filter_mset (unresolved (metrics_uuid s)) (mset q)
            = filter_mset (unresolved (metrics_uuid s)) (mset (metric_queue s))"
      by (auto simp: drained_def)
    show ?thesis
    proof (cases "ms = []")
      case True
      with r(1) Inr qm f show ?thesis by (simp add: loop_def)
    next
      case False
      with r(1) Inr qm f d show ?thesis
        by (auto simp: loop_def publish_def deliverable_uuid)
    qed
  qed
qed

lemma waiting_eval:
  "loop waiting_connector =
     Some (Inr (waiting_connector
       \<lparr>metric_queue := [(0, [(''measurement'', PStr ''mysql_status''), (''service'', PStr ''mysql'')])],
        mqtt_queue_size := 1,
        mqtt_published := [(''v1/agent/agent-1/data'',
           Batch [[(''measurement'', PStr ''cpu_used''), (''value'', PNum 7), (''uuid'', PStr ''m-1'')]])]\<rparr>))"
  by (simp add: loop_def waiting_connector_def example_connector_def loop_while.simps
      getitem_def dict_get_def setitem_def publish_def MQTT_QUEUE_MAX_SIZE_def Let_def)

lemma loop_while_all_resolved:
  assumes "\<forall>p \<in> set xs. cached_uuid u (snd p) = Some v" "v \<noteq> PNone" "v \<noteq> PStr ''deleted''"
    and "length ms + length xs \<le> 1000"
  shows "loop_while u (xs @ rest) ms rp
           = loop_while u rest (ms @ map (\<lambda>p. setitem (snd p) ''uuid'' v) xs) rp"
  using assms
proof (induction xs arbitrary: ms)
  case Nil
  then show ?case by simp
next
  case (Cons p xs)
  from Cons.prems have c: "cached_uuid u (snd p) = Some v" and l: "\<not> 1000 \<le> length ms"
    by auto
  have "loop_while u ((p # xs) @ rest) ms rp
          = loop_while u (xs @ rest) (ms @ [setitem (snd p) ''uuid'' v]) rp"
    using loop_while_resolved[OF c Cons.prems(2,3)] l by simp
  also have "\<dots> = loop_while u rest
      ((ms @ [setitem (snd p) ''uuid'' v]) @ map (\<lambda>p. setitem (snd p) ''uuid'' v) xs) rp"
    using Cons.prems by (intro Cons.IH) auto
  finally show ?case by simp
qed

lemma backlog_eval:
  "\<exists>s' batch. loop backlog_connector = Some (Inr s')
     \<and> mqtt_published s' = [(''v1/agent/agent-1/data'', Batch batch)] \<and> length batch = 1001"
proof -
  let ?u = "[((PStr ''cpu_used'', PNone, PNone), PStr ''m-1'')]"
  let ?f = "\<lambda>i::nat. (i, [(''measurement'', PStr ''cpu_used'')])"
  let ?g = "\<lambda>p::point. setitem (snd p) ''uuid'' (PStr ''m-1'')"
  have c0: "cached_uuid ?u [(''measurement'', PStr ''cpu_used'')] = Some (PStr ''m-1'')"
    by (simp add: cached_uuid_def identity_of_def dict_get_def)
  then have c: "cached_uuid ?u (snd (?f i)) = Some (PStr ''m-1'')" for i
    by simp
  have split: "map ?f [0..<1001] = map ?f [0..<1000] @ [?f 1000]"
    using upt_Suc_append[of 0 1000] by simp
  have "loop_while ?u (map ?f [0..<1001]) [] None
          = loop_while ?u [?f 1000] ([] @ map ?g (map ?f [0..<1000])) None"
    unfolding split by (rule loop_while_all_resolved) (auto simp: c0)
  also have "\<dots> = Some (Inr ([], map ?g (map ?f [0..<1000]) @ [?g (?f 1000)]))"
    using loop_while_resolved[OF c, of 1000 "[]" "map ?g (map ?f [0..<1000])" None] by simp
  finally have "loop_while ?u (map ?f [0..<1001]) [] None
          = Some (Inr ([], map ?g (map ?f [0..<1000]) @ [?g (?f 1000)]))" .
  then show ?thesis
    by (simp add: loop_def backlog_connector_def example_connector_def publish_def
        MQTT_QUEUE_MAX_SIZE_def)
qed

text \<open>
  Claim C1. The drain loop always returns, and a point whose identity the cache maps to
  \<^verbatim>\<open>None\<close> when the loop reads it is never in a published batch: every entry of the batch
  is a queued point whose identity the cache maps to a concrete identifier, with that
  identifier attached; the unresolved points of the queue are all in the queue again
  when the loop ends, and the cache is left as it was. This holds in every state, so
  such a point is delivered only by a run that finds its identity resolved.
\<close>

theorem loop_defers_unresolved:
  "\<exists>r. loop s = Some r \<and>
     (\<forall>s'. r = Inr s' \<longrightarrow>
        metrics_uuid s' = metrics_uuid s
        \<and> filter_mset (unresolved (metrics_uuid s)) (mset (metric_queue s'))
            = filter_mset (unresolved (metrics_uuid s)) (mset (metric_queue s))
        \<and> (\<exists>new. mqtt_published s' = mqtt_published s @ new
              \<and> (\<forall>topic batch. (topic, Batch batch) \<in> set new \<longrightarrow>
                    (\<forall>sent \<in> set batch. deliverable (metrics_uuid s) (metric_queue s) sent
                        \<and> dict_get sent ''uuid'' \<noteq> PNone))))"
  by (rule loop_result)

theorem loop_defers_unresolved_witness:
  "\<exists>s'. loop waiting_connector = Some (Inr s')
     \<and> unresolved (metrics_uuid waiting_connector)
          (0, [(''measurement'', PStr ''mysql_status''), (''service'', PStr ''mysql'')])
     \<and> metric_queue s'
          = [(0, [(''measurement'', PStr ''mysql_status''), (''service'', PStr ''mysql'')])]
     \<and> filter_mset (unresolved (metrics_uuid waiting_connector)) (mset (metric_queue s'))
          = filter_mset (unresolved (metrics_uuid waiting_connector))
              (mset (metric_queue waiting_connector))
     \<and> mqtt_published s' = mqtt_published waiting_connector @
          [(''v1/agent/agent-1/data'',
            Batch [[(''measurement'', PStr ''cpu_used''), (''value'', PNum 7),
                    (''uuid'', PStr ''m-1'')]])]
     \<and> deliverable (metrics_uuid waiting_connector) (metric_queue waiting_connector)
          [(''measurement'', PStr ''cpu_used''), (''value'', PNum 7), (''uuid'', PStr ''m-1'')]"
proof -
  have u: "unresolved (metrics_uuid waiting_connector)
          (0, [(''measurement'', PStr ''mysql_status''), (''service'', PStr ''mysql'')])"
    by (simp add: unresolved_def cached_uuid_def identity_of_def dict_get_def
        waiting_connector_def example_connector_def)
  from loop_defers_unresolved[of waiting_connector] waiting_eval u show ?thesis
    by (auto simp: waiting_connector_def example_connector_def)
qed

text \<open>The bound the loop does keep: a published batch never holds more than 1001 points.\<close>

lemma loop_batch_at_most_1001:
  assumes "loop s = Some (Inr s')"
  shows "\<exists>new. mqtt_published s' = mqtt_published s @ new
           \<and> (\<forall>topic batch. (topic, Batch batch) \<in> set new \<longrightarrow> length batch \<le> 1001)"
proof -
  from loop_while_total[of "[]" "metrics_uuid s" None "[]" "metric_queue s"]
  obtain r where r: "loop_while (metrics_uuid s) (metric_queue s) [] None = Some r"
    "drained (metrics_uuid s) (metric_queue s) [] [] r" by auto
  from assms r(1) obtain q ms where qm: "r = Inr (q, ms)"
    by (cases r) (auto simp: loop_def)
  from r(2) qm have l: "length ms \<le> 1001" by (simp add: drained_def)
  from assms r(1) qm l show ?thesis
    by (cases "ms = []") (auto simp: loop_def publish_def)
qed

text \<open>
  Claim C4. A batch published by the drain loop is said to hold at most 1000 points. The
  loop leaves when \<^verbatim>\<open>len(metrics) > 1000\<close>, after the append: on a queue of 1001 points
  of a registered metric it publishes all 1001 in one message.
\<close>

theorem loop_batch_of_1001:
  "\<exists>s' batch. loop backlog_connector = Some (Inr s')
     \<and> mqtt_published s' = [(''v1/agent/agent-1/data'', Batch batch)] \<and> length batch = 1001"
  by (rule backlog_eval)

section \<open>Properties of the reconciliation\<close>

lemmas dict_defs = has_key_def dict_get_def getitem_def setdefault_def setitem_def delitem_def

lemmas register_metric_defs = register_metric_def register_metric_one_def
  register_metric_locked_def payload_container_def payload_service_def purge_metric_def
  http_def threshold_of_def

lemma has_key_map_of: "has_key d k \<longleftrightarrow> map_of d k \<noteq> None"
  by (simp add: has_key_def split: option.splits)

lemma map_of_setitem: "map_of (setitem d k v) = (map_of d)(k \<mapsto> v)"
  by (simp add: setitem_def update_conv')

lemma delitem_Inr: "delitem d k = Inr d' \<Longrightarrow> map_of d' = (map_of d)(k := None)"
  by (auto simp: delitem_def delete_conv' split: if_splits)

lemma http_calls_http: "http srv s req = (resp, s1) \<Longrightarrow>
    resp = srv (http_calls s) req \<and> s1 = s\<lparr>http_calls := http_calls s @ [req]\<rparr>"
  by (auto simp: http_def)

subsection \<open>Registration of metrics\<close>

lemma pending_eval:
  "\<exists>s'. register_metric rejecting_registry pending_connector = Return s'
     \<and> http_calls s' = [Post ''metric'' [(''agent'', PStr ''agent-1''), (''label'', PStr ''cpu_used'')]]
     \<and> map_of (metrics_uuid s') (PStr ''cpu_used'', PNone, PNone) = Some PNone
     \<and> map_of (metrics_uuid s') (PStr ''mem_used'', PNone, PNone) = Some PNone
     \<and> fst (rejecting_registry (http_calls s')
              (Post ''metric'' [(''agent'', PStr ''agent-1''), (''label'', PStr ''mem_used'')])) = 201"
  by (simp add: register_metric_defs dict_defs pending_connector_def example_connector_def
      plain_info_def rejecting_registry_def accepted_def Let_def)

text \<open>
  Claim C2. A registration failure is said to affect its own identity only, every other
  unresolved metric of the pass being still attempted. On a non-201 answer
  \<^verbatim>\<open>_register_metric\<close> executes \<^verbatim>\<open>return\<close>: with \<^verbatim>\<open>cpu_used\<close> and \<^verbatim>\<open>mem_used\<close> unresolved
  and a registry that rejects only \<^verbatim>\<open>cpu_used\<close>, the pass ends after one call, and
  \<^verbatim>\<open>mem_used\<close>, which the registry would have accepted, is not attempted.
\<close>

theorem register_metric_stops_at_first_failure:
  "\<exists>s'. register_metric rejecting_registry pending_connector = Return s'
     \<and> http_calls s' = [Post ''metric'' [(''agent'', PStr ''agent-1''), (''label'', PStr ''cpu_used'')]]
     \<and> map_of (metrics_uuid s') (PStr ''cpu_used'', PNone, PNone) = Some PNone
     \<and> map_of (metrics_uuid s') (PStr ''mem_used'', PNone, PNone) = Some PNone
     \<and> fst (rejecting_registry (http_calls s')
              (Post ''metric'' [(''agent'', PStr ''agent-1''), (''label'', PStr ''mem_used'')])) = 201"
  by (rule pending_eval)

lemma orphan_eval:
  "\<exists>s' s''.
     map_of (metrics_uuid orphan_connector) (PStr ''mysql_status'', PStr ''mysql'', PNone) = Some PNone
     \<and> map_of (metrics_info orphan_connector) (PStr ''mysql_status'', PStr ''mysql'', PNone)
          = Some [(''status_of'', PStr ''mysql_queries''), (''instance'', PNone), (''container'', PNone)]
     \<and> \<not> has_key (metrics_uuid orphan_connector) (PStr ''mysql_queries'', PStr ''mysql'', PNone)
     \<and> register_metric rejecting_registry orphan_connector = Return s'
     \<and> has_key (metrics_uuid s') (PStr ''mysql_status'', PStr ''mysql'', PNone)
     \<and> has_key (metrics_info s') (PStr ''mysql_status'', PStr ''mysql'', PNone)
     \<and> register_metric accepting_registry orphan_connector = Next s''
     \<and> \<not> has_key (metrics_uuid s'') (PStr ''mysql_status'', PStr ''mysql'', PNone)
     \<and> \<not> has_key (metrics_info s'') (PStr ''mysql_status'', PStr ''mysql'', PNone)
     \<and> http_calls s'' = [Post ''metric'' [(''agent'', PStr ''agent-1''), (''label'', PStr ''cpu_used'')]]"
  by (simp add: register_metric_defs dict_defs orphan_connector_def example_connector_def
      plain_info_def rejecting_registry_def accepting_registry_def accepted_def Let_def)

text \<open>
  Claim C8. An unresolved metric whose \<^verbatim>\<open>status_of\<close> parent is absent from the cache is
  said to be removed by one resolver pass. \<^verbatim>\<open>mysql_status\<close> is such a metric, listed after
  \<^verbatim>\<open>cpu_used\<close>: when the registry rejects \<^verbatim>\<open>cpu_used\<close> the pass returns before it reaches
  \<^verbatim>\<open>mysql_status\<close>, which stays in both dictionaries; when the registry accepts, the pass
  runs to its end and removes it without a call for it.
\<close>

theorem register_metric_orphan_not_purged:
  "\<exists>s' s''.
     map_of (metrics_uuid orphan_connector) (PStr ''mysql_status'', PStr ''mysql'', PNone) = Some PNone
     \<and> map_of (metrics_info orphan_connector) (PStr ''mysql_status'', PStr ''mysql'', PNone)
          = Some [(''status_of'', PStr ''mysql_queries''), (''instance'', PNone), (''container'', PNone)]
     \<and> \<not> has_key (metrics_uuid orphan_connector) (PStr ''mysql_queries'', PStr ''mysql'', PNone)
     \<and> register_metric rejecting_registry orphan_connector = Return s'
     \<and> has_key (metrics_uuid s') (PStr ''mysql_status'', PStr ''mysql'', PNone)
     \<and> has_key (metrics_info s') (PStr ''mysql_status'', PStr ''mysql'', PNone)
     \<and> register_metric accepting_registry orphan_connector = Next s''
     \<and> \<not> has_key (metrics_uuid s'') (PStr ''mysql_status'', PStr ''mysql'', PNone)
     \<and> \<not> has_key (metrics_info s'') (PStr ''mysql_status'', PStr ''mysql'', PNone)
     \<and> http_calls s'' = [Post ''metric'' [(''agent'', PStr ''agent-1''), (''label'', PStr ''cpu_used'')]]"
  by (rule orphan_eval)

text \<open>
  The cascading purge itself: the iteration for a metric whose parent is absent from the
  cache removes it from both dictionaries and calls nothing, an iteration changes the
  entries of its own identity only, and so every pass that runs to the end of its
  snapshot removes such a metric.
\<close>

lemma purge_metric_cases:
  assumes "has_key (metrics_uuid s) k" "has_key (metrics_info s) k"
  shows "\<exists>s'. purge_metric s k = Skip s' \<and> http_calls s' = http_calls s
           \<and> map_of (metrics_uuid s') = (map_of (metrics_uuid s))(k := None)
           \<and> map_of (metrics_info s') = (map_of (metrics_info s))(k := None)"
  using assms by (simp add: purge_metric_def delitem_def delete_conv')

lemma register_metric_one_cascade:
  assumes "map_of (metrics_uuid s) a = Some v" "map_of (metrics_info s) a = Some info"
    and "dict_get info ''status_of'' \<noteq> PNone"
    and "\<not> has_key (metrics_uuid s) (dict_get info ''status_of'', fst (snd a), snd (snd a))"
  shows "\<exists>s'. register_metric_one srv s (a, PNone) = Next s' \<and> http_calls s' = http_calls s
           \<and> \<not> has_key (metrics_uuid s') a \<and> \<not> has_key (metrics_info s') a"
proof -
  obtain n sv it where a: "a = (n, sv, it)" by (cases a)
  from assms(1,2) have "has_key (metrics_uuid s) a" "has_key (metrics_info s) a"
    by (simp_all add: has_key_map_of)
  from purge_metric_cases[OF this] obtain s' where
    p: "purge_metric s a = Skip s'" "http_calls s' = http_calls s"
       "map_of (metrics_uuid s') = (map_of (metrics_uuid s))(a := None)"
       "map_of (metrics_info s') = (map_of (metrics_info s))(a := None)" by blast
  have "register_metric_locked s a = Skip s'"
    using assms(2,3,4) p(1) a by (simp add: register_metric_locked_def Let_def)
  with p show ?thesis
    by (simp add: register_metric_one_def has_key_map_of)
qed


lemma purge_metric_Skip:
  "purge_metric s k = Skip s' \<Longrightarrow>
     map_of (metrics_uuid s') = (map_of (metrics_uuid s))(k := None)
     \<and> map_of (metrics_info s') = (map_of (metrics_info s))(k := None)"
  by (auto simp: purge_metric_def dest!: delitem_Inr split: sum.splits)

lemma payload_service_Skip: "payload_service s k info payload \<noteq> Skip s'"
  by (cases k) (auto simp: payload_service_def Let_def split: sum.splits)

lemma payload_container_Skip:
  "payload_container s k info payload = Skip s' \<Longrightarrow> s' = s \<or> purge_metric s k = Skip s'"
  by (auto simp: payload_container_def Let_def payload_service_Skip
      split: if_splits option.splits prod.splits)

lemma register_metric_locked_Skip:
  assumes "register_metric_locked s k = Skip s'" "k' \<noteq> k"
  shows "map_of (metrics_uuid s') k' = map_of (metrics_uuid s) k'
     \<and> map_of (metrics_info s') k' = map_of (metrics_info s) k'"
proof -
  obtain n sv it where k: "k = (n, sv, it)" by (cases k)
  show ?thesis
  proof (cases "map_of (metrics_info s) k")
    case None
    with assms(1) k obtain d where "delitem (metrics_uuid s) k = Inr d"
      "s' = s\<lparr>metrics_uuid := d\<rparr>"
      by (auto simp: register_metric_locked_def split: sum.splits)
    with delitem_Inr[OF this(1)] assms(2) show ?thesis by simp
  next
    case (Some info)
    with assms(1) k have "s' = s \<or> purge_metric s k = Skip s'"
      by (auto simp: register_metric_locked_def Let_def split: if_splits
          dest: payload_container_Skip)
    with assms(2) show ?thesis by (auto dest: purge_metric_Skip)
  qed
qed

lemma register_metric_one_frame:
  assumes "register_metric_one srv s (k, u) = Next s'" "k' \<noteq> k"
  shows "map_of (metrics_uuid s') k' = map_of (metrics_uuid s) k'
     \<and> map_of (metrics_info s') k' = map_of (metrics_info s) k'"
proof (cases "u \<noteq> PNone")
  case True
  with assms(1) show ?thesis by (simp add: register_metric_one_def)
next
  case False
  show ?thesis
  proof (cases "register_metric_locked s k")
    case (Skip s1)
    with assms(1) False have "s' = s1" by (simp add: register_metric_one_def)
    with register_metric_locked_Skip[OF Skip assms(2)] show ?thesis by simp
  next
    case (Fail e)
    with assms(1) False show ?thesis by (simp add: register_metric_one_def)
  next
    case (Ready payload)
    with assms(1) False assms(2) show ?thesis
      by (auto simp: register_metric_one_def http_def map_of_setitem
          split: if_splits sum.splits)
  qed
qed

lemma register_metric_items_frame:
  "register_metric_items srv s items = Next s' \<Longrightarrow> k' \<notin> fst ` set items \<Longrightarrow>
     map_of (metrics_uuid s') k' = map_of (metrics_uuid s) k'
     \<and> map_of (metrics_info s') k' = map_of (metrics_info s) k'"
proof (induction items arbitrary: s)
  case Nil
  then show ?case by simp
next
  case (Cons e items)
  obtain k u where e: "e = (k, u)" by (cases e)
  from Cons.prems(1) obtain s1 where
    o: "register_metric_one srv s (k, u) = Next s1"
    and r: "register_metric_items srv s1 items = Next s'"
    by (auto simp: e split: flow.splits)
  from Cons.prems(2) e have "k' \<noteq> k" "k' \<notin> fst ` set items" by auto
  with register_metric_one_frame[OF o] Cons.IH[OF r] show ?case by simp
qed

lemma register_metric_items_append:
  "register_metric_items srv s (xs @ ys) =
     (case register_metric_items srv s xs of
        Next s1 \<Rightarrow> register_metric_items srv s1 ys
      | Return s1 \<Rightarrow> Return s1
      | Raise e \<Rightarrow> Raise e)"
  by (induction xs arbitrary: s) (auto split: flow.splits)

lemma register_metric_cascade:
  assumes "register_metric srv s = Next s'" "distinct (map fst (metrics_uuid s))"
    and "map_of (metrics_uuid s) a = Some PNone" "map_of (metrics_info s) a = Some info"
    and "dict_get info ''status_of'' \<noteq> PNone"
    and "\<not> has_key (metrics_uuid s) (dict_get info ''status_of'', fst (snd a), snd (snd a))"
  shows "\<not> has_key (metrics_uuid s') a \<and> \<not> has_key (metrics_info s') a
     \<and> (\<exists>before after s1 s2. metrics_uuid s = before @ (a, PNone) # after
           \<and> register_metric_items srv s before = Next s1
           \<and> register_metric_one srv s1 (a, PNone) = Next s2
           \<and> http_calls s2 = http_calls s1
           \<and> register_metric_items srv s2 after = Next s')"
proof -
  let ?p = "(dict_get info ''status_of'', fst (snd a), snd (snd a))"
  from assms(3) have "(a, PNone) \<in> set (metrics_uuid s)" by (rule map_of_SomeD)
  then obtain pre post where sp: "metrics_uuid s = pre @ (a, PNone) # post"
    by (auto dest: split_list)
  with assms(2) have na: "a \<notin> fst ` set pre" "a \<notin> fst ` set post" by auto
  from assms(6) sp have np: "?p \<notin> fst ` set pre" by (auto simp: has_key_iff)
  from assms(1) sp obtain s1 where
    i1: "register_metric_items srv s pre = Next s1"
    and rest: "register_metric_items srv s1 ((a, PNone) # post) = Next s'"
    by (auto simp: register_metric_def register_metric_items_append split: flow.splits)
  from register_metric_items_frame[OF i1 na(1)] register_metric_items_frame[OF i1 np]
    assms(3,4,6)
  have m1: "map_of (metrics_uuid s1) a = Some PNone" "map_of (metrics_info s1) a = Some info"
    "\<not> has_key (metrics_uuid s1) ?p"
    by (simp_all add: has_key_map_of)
  from register_metric_one_cascade[OF m1(1,2) assms(5) m1(3), of srv] obtain s2 where
    o: "register_metric_one srv s1 (a, PNone) = Next s2" "http_calls s2 = http_calls s1"
       "\<not> has_key (metrics_uuid s2) a" "\<not> has_key (metrics_info s2) a" by blast
  from rest o(1) have i2: "register_metric_items srv s2 post = Next s'" by simp
  from register_metric_items_frame[OF i2 na(2)] o(3,4)
  have "\<not> has_key (metrics_uuid s') a \<and> \<not> has_key (metrics_info s') a"
    by (simp add: has_key_map_of)
  with sp i1 o(1,2) i2 show ?thesis by blast
qed

subsection \<open>Metrics deleted on the registry\<close>

lemma retrive_threshold_fetch_registered:
  "retrive_threshold_fetch srv s metrics reg th = Next (s1, reg', th') \<Longrightarrow>
     metrics_uuid s1 = metrics_uuid s \<and> alerting_mode s1 = alerting_mode s
     \<and> alerting_metric s1 = alerting_metric s
     \<and> reg' \<subseteq> reg \<union> {i. \<exists>data \<in> set metrics. getitem data ''id'' = Inr i}"
proof (induction srv s metrics reg th rule: retrive_threshold_fetch.induct)
  case (1 srv s reg th)
  then show ?case by simp
next
  case (2 srv s data metrics reg th)
  from "2.prems" obtain last_status label sent where
    a: "getitem data ''last_status'' = Inr last_status" "getitem data ''label'' = Inr label"
       "sent_metric s label (last_status \<noteq> PNone) = Inr sent"
    by (auto split: sum.splits)
  show ?case
  proof (cases sent)
    case True
    with "2.prems" a obtain metric_id item threshold where
      b: "getitem data ''id'' = Inr metric_id" "getitem data ''item'' = Inr item"
         "threshold_of data = Inr threshold"
      and r: "retrive_threshold_fetch srv s metrics (insert metric_id reg)
               (setitem th (label, if item = PStr [] then PNone else item) threshold)
              = Next (s1, reg', th')"
      by (auto split: sum.splits)
    have st: "sent = True" using True by simp
    from "2.IH"(1)[OF a(1,2) a(3) st b r] b(1) show ?thesis
      by auto
  next
    case False
    with "2.prems" a obtain metric_id where
      b: "getitem data ''id'' = Inr metric_id"
      by (auto split: sum.splits)
    obtain response s' where h: "http srv s (Delete ''metric'' metric_id) = (response, s')"
      by (cases "http srv s (Delete ''metric'' metric_id)")
    from "2.prems" a b h False have ok: "\<not> fst response \<noteq> 204"
      and r: "retrive_threshold_fetch srv s' metrics reg th = Next (s1, reg', th')"
      by (auto split: if_splits)
    have sf: "sent = False" using False by simp
    from "2.IH"(2)[OF a(1,2) a(3) sf b h[symmetric] ok r] http_calls_http[OF h]
    show ?thesis by auto
  qed
qed

lemma retrive_threshold_purge_absent:
  "retrive_threshold_purge reg ks d del = Inr (d', del') \<Longrightarrow> map_of d k = None \<Longrightarrow>
     map_of d' k = None"
proof (induction ks arbitrary: d del)
  case Nil
  then show ?case by simp
next
  case (Cons a ks)
  from Cons.prems(1) obtain v where v: "getitem d a = Inr v" by (auto split: sum.splits)
  show ?case
  proof (cases "v = PNone \<or> v \<in> reg")
    case True
    with Cons v show ?thesis by auto
  next
    case False
    with Cons.prems(1) v obtain d1 where
      d1: "delitem d a = Inr d1"
      and r: "retrive_threshold_purge reg ks d1 (del @ [(fst a, snd (snd a))]) = Inr (d', del')"
      by (auto split: sum.splits)
    from delitem_Inr[OF d1] Cons.prems(2) have "map_of d1 k = None" by simp
    from Cons.IH[OF r this] show ?thesis .
  qed
qed

lemma retrive_threshold_purge_removes:
  "retrive_threshold_purge reg ks d del = Inr (d', del') \<Longrightarrow> k \<in> set ks \<Longrightarrow>
     map_of d k = Some v \<Longrightarrow> v \<noteq> PNone \<Longrightarrow> v \<notin> reg \<Longrightarrow> map_of d' k = None"
proof (induction ks arbitrary: d del)
  case Nil
  then show ?case by simp
next
  case (Cons a ks)
  from Cons.prems(1) obtain w where w: "getitem d a = Inr w" by (auto split: sum.splits)
  show ?case
  proof (cases "a = k")
    case True
    with w Cons.prems(3) have "w = v" by (simp add: getitem_def)
    with Cons.prems w obtain d1 where
      d1: "delitem d a = Inr d1"
      and r: "retrive_threshold_purge reg ks d1 (del @ [(fst a, snd (snd a))]) = Inr (d', del')"
      by (auto split: sum.splits)
    from delitem_Inr[OF d1] True have "map_of d1 k = None" by simp
    from retrive_threshold_purge_absent[OF r this] show ?thesis .
  next
    case False
    with Cons.prems(2) have k: "k \<in> set ks" by simp
    show ?thesis
    proof (cases "w = PNone \<or> w \<in> reg")
      case True
      with Cons.prems w have "retrive_threshold_purge reg ks d del = Inr (d', del')" by auto
      from Cons.IH[OF this k Cons.prems(3,4,5)] show ?thesis .
    next
      case nk: False
      with Cons.prems(1) w obtain d1 where
        d1: "delitem d a = Inr d1"
        and r: "retrive_threshold_purge reg ks d1 (del @ [(fst a, snd (snd a))]) = Inr (d', del')"
        by (auto split: sum.splits)
      from delitem_Inr[OF d1] False Cons.prems(3) have "map_of d1 k = Some v" by simp
      from Cons.IH[OF r k this Cons.prems(4,5)] show ?thesis .
    qed
  qed
qed

lemma retrive_threshold_removes:
  assumes "retrive_threshold srv metrics s = Next s1"
    and "map_of (metrics_uuid s) k = Some v" and "v \<noteq> PNone"
    and "\<forall>data \<in> set metrics. getitem data ''id'' \<noteq> Inr v"
  shows "map_of (metrics_uuid s1) k = None"
proof -
  from assms(1) obtain s0 reg th d del where
    f: "retrive_threshold_fetch srv s metrics {} [] = Next (s0, reg, th)"
    and p: "retrive_threshold_purge reg (map fst (metrics_uuid s0)) (metrics_uuid s0) []
              = Inr (d, del)"
    and s1: "s1 = s0\<lparr>thresholds := th, metrics_uuid := d\<rparr>"
    by (auto simp: retrive_threshold_def split: flow.splits sum.splits prod.splits)
  from retrive_threshold_fetch_registered[OF f] assms(4)
  have u: "metrics_uuid s0 = metrics_uuid s" and nr: "v \<notin> reg" by auto
  from assms(2) u have "k \<in> set (map fst (metrics_uuid s0))"
    by (auto dest: map_of_SomeD intro: rev_image_eqI)
  from retrive_threshold_purge_removes[OF p this] assms(2,3) u nr s1 show ?thesis by simp
qed

lemma emit_metric_absent:
  assumes "identity_of (snd metric) = Some k" "map_of (metrics_uuid s) k = None"
    and "sent_metric s (fst k) (dict_get (snd metric) ''status'' \<noteq> PNone) = Inr True"
  shows "\<exists>s2. emit_metric s metric = Inr s2 \<and> map_of (metrics_uuid s2) k = Some PNone"
proof -
  from assms(1) obtain name where
    n: "getitem (snd metric) ''measurement'' = Inr name"
       "k = (name, dict_get (snd metric) ''service'', dict_get (snd metric) ''item'')"
    by (auto simp: identity_of_Some)
  from assms(2) have nk: "\<not> has_key (metrics_uuid s) k" by (simp add: has_key_map_of)
  with n assms(3) show ?thesis
    by (auto simp: emit_metric_def Let_def map_of_setdefault_new)
qed

lemma cached_uuid_absent:
  "identity_of metric = Some k \<Longrightarrow> map_of uuids k = None \<Longrightarrow>
     cached_uuid uuids metric = Some (PStr ''deleted'')"
  by (simp add: cached_uuid_def)

lemma registered_eval:
  "\<exists>s1 s2 s3.
     map_of (metrics_uuid registered_connector) (PStr ''cpu_used'', PNone, PNone) = Some (PStr ''m-1'')
     \<and> retrive_threshold accepting_registry remote_metrics registered_connector = Next s1
     \<and> map_of (metrics_uuid s1) (PStr ''cpu_used'', PNone, PNone) = None
     \<and> emit_metric s1 cpu_point = Inr s2
     \<and> map_of (metrics_uuid s2) (PStr ''cpu_used'', PNone, PNone) = Some PNone
     \<and> register_metric accepting_registry s2 = Next s3
     \<and> http_calls s3 = [Post ''metric'' [(''agent'', PStr ''agent-1''), (''label'', PStr ''cpu_used'')]]
     \<and> map_of (metrics_uuid s3) (PStr ''cpu_used'', PNone, PNone) = Some (PStr ''m-9'')"
  by (simp add: register_metric_defs dict_defs registered_connector_def example_connector_def
      plain_info_def accepting_registry_def accepted_def Let_def retrive_threshold_def
      remote_metrics_def sent_metric_def emit_metric_def cpu_point_def)

lemma registered_step:
  "retrive_threshold accepting_registry remote_metrics registered_connector =
     Next (registered_connector
       \<lparr>thresholds := [((PStr ''agent_status'', PNone),
                        [(''low_warning'', PNone), (''low_critical'', PNone),
                         (''high_warning'', PNone), (''high_critical'', PNone)])],
        metrics_uuid := [((PStr ''agent_status'', PNone, PNone), PStr ''m-0'')]\<rparr>)"
  by (simp add: dict_defs registered_connector_def example_connector_def
      plain_info_def accepting_registry_def accepted_def Let_def retrive_threshold_def
      remote_metrics_def sent_metric_def threshold_of_def)

lemma identity_of_setitem_uuid: "identity_of (setitem m ''uuid'' v) = identity_of m"
  by (auto simp: identity_of_def dict_get_def map_of_setitem split: option.splits)

lemma loop_drops_head:
  assumes "identity_of (snd p) = Some k" "map_of (metrics_uuid s) k = None"
  shows "loop (s\<lparr>metric_queue := p # q\<rparr>) = loop (s\<lparr>metric_queue := q\<rparr>)"
proof -
  from cached_uuid_absent[OF assms]
  have "loop_while (metrics_uuid s) (p # q) [] None = loop_while (metrics_uuid s) q [] None"
    by (rule loop_while_deleted)
  then show ?thesis
    by (simp add: loop_def split: option.splits sum.splits prod.splits)
qed

lemma loop_never_delivers:
  assumes "loop s = Some (Inr s')" "map_of (metrics_uuid s) k = None"
  shows "\<exists>new. mqtt_published s' = mqtt_published s @ new
           \<and> (\<forall>topic batch. (topic, Batch batch) \<in> set new \<longrightarrow>
                 (\<forall>sent \<in> set batch. identity_of sent \<noteq> Some k))"
proof -
  from loop_result[of s] assms(1) obtain new where
    n: "mqtt_published s' = mqtt_published s @ new"
    and d: "\<forall>topic batch. (topic, Batch batch) \<in> set new \<longrightarrow>
              (\<forall>sent \<in> set batch. deliverable (metrics_uuid s) (metric_queue s) sent)"
    by auto
  have "identity_of sent \<noteq> Some k" if "deliverable (metrics_uuid s) (metric_queue s) sent" for sent
  proof
    assume i: "identity_of sent = Some k"
    from that obtain metric v where
      c: "cached_uuid (metrics_uuid s) (snd metric) = Some v" "v \<noteq> PStr ''deleted''"
         "sent = setitem (snd metric) ''uuid'' v"
      by (auto simp: deliverable_def)
    from i c(3) have "identity_of (snd metric) = Some k" by (simp add: identity_of_setitem_uuid)
    from cached_uuid_absent[OF this assms(2)] c(1,2) show False by simp
  qed
  with n d show ?thesis by blast
qed

lemma purge_metric_calls: "purge_metric s k = Skip s' \<Longrightarrow> http_calls s' = http_calls s"
  by (auto simp: purge_metric_def split: sum.splits)

lemma register_metric_locked_calls:
  assumes "register_metric_locked s k = Skip s'"
  shows "http_calls s' = http_calls s"
proof -
  obtain n sv it where k: "k = (n, sv, it)" by (cases k)
  show ?thesis
  proof (cases "map_of (metrics_info s) k")
    case None
    with assms k show ?thesis
      by (auto simp: register_metric_locked_def split: sum.splits)
  next
    case (Some info)
    with assms k have "s' = s \<or> purge_metric s k = Skip s'"
      by (auto simp: register_metric_locked_def Let_def split: if_splits
          dest: payload_container_Skip)
    then show ?thesis by (auto dest: purge_metric_calls)
  qed
qed

lemma register_metric_one_calls:
  assumes "register_metric_one srv s e = Next s'"
  shows "\<exists>new. http_calls s' = http_calls s @ new"
proof -
  obtain k u where e: "e = (k, u)" by (cases e)
  show ?thesis
  proof (cases "u \<noteq> PNone")
    case True
    with assms e show ?thesis by (simp add: register_metric_one_def)
  next
    case False
    show ?thesis
    proof (cases "register_metric_locked s k")
      case (Skip s1)
      with assms e False have "s' = s1" by (simp add: register_metric_one_def)
      with register_metric_locked_calls[OF Skip] show ?thesis by simp
    next
      case (Fail x)
      with assms e False show ?thesis by (simp add: register_metric_one_def)
    next
      case (Ready payload)
      with assms e False show ?thesis
        by (auto simp: register_metric_one_def http_def split: if_splits sum.splits)
    qed
  qed
qed

lemma register_metric_items_calls:
  "register_metric_items srv s items = Next s' \<Longrightarrow> \<exists>new. http_calls s' = http_calls s @ new"
proof (induction items arbitrary: s)
  case Nil
  then show ?case by simp
next
  case (Cons e items)
  from Cons.prems obtain s1 where
    o: "register_metric_one srv s e = Next s1"
    and r: "register_metric_items srv s1 items = Next s'"
    by (auto split: flow.splits)
  from register_metric_one_calls[OF o] Cons.IH[OF r] show ?case by auto
qed

lemma register_metric_one_plain:
  assumes "register_metric_one srv s (k, PNone) = Next s2"
    and "map_of (metrics_info s) k = Some info"
    and "dict_get info ''status_of'' = PNone" "dict_get info ''container'' = PNone"
    and "fst (snd k) = PNone"
  shows "\<exists>payload new_uuid. map_of payload ''label'' = Some (fst k)
     \<and> http_calls s2 = http_calls s @ [Post ''metric'' payload]
     \<and> fst (srv (http_calls s) (Post ''metric'' payload)) = 201
     \<and> getitem (snd (srv (http_calls s) (Post ''metric'' payload))) ''id'' = Inr new_uuid
     \<and> map_of (metrics_uuid s2) k = Some new_uuid"
proof -
  obtain n it where k: "k = (n, PNone, it)" using assms(5) by (cases k) auto
  let ?payload = "if it \<noteq> PNone
                  then setitem [(''agent'', PStr (agent_uuid s)), (''label'', n)] ''item'' it
                  else [(''agent'', PStr (agent_uuid s)), (''label'', n)]"
  have r: "register_metric_locked s k = Ready ?payload"
    using assms(2,3,4) k
    by (simp add: register_metric_locked_def payload_container_def payload_service_def Let_def)
  have l: "map_of ?payload ''label'' = Some (fst k)"
    by (simp add: k map_of_setitem)
  from assms(1) r l show ?thesis
    by (intro exI[where x = ?payload])
       (auto simp: register_metric_one_def http_def map_of_setitem split: if_splits sum.splits)
qed

lemma register_metric_registers_plain:
  assumes "register_metric srv s = Next s'" "distinct (map fst (metrics_uuid s))"
    and "map_of (metrics_uuid s) k = Some PNone" "map_of (metrics_info s) k = Some info"
    and "dict_get info ''status_of'' = PNone" "dict_get info ''container'' = PNone"
    and "fst (snd k) = PNone"
  shows "\<exists>before payload after new_uuid.
       http_calls s' = http_calls s @ before @ Post ''metric'' payload # after
     \<and> map_of payload ''label'' = Some (fst k)
     \<and> fst (srv (http_calls s @ before) (Post ''metric'' payload)) = 201
     \<and> getitem (snd (srv (http_calls s @ before) (Post ''metric'' payload))) ''id''
          = Inr new_uuid
     \<and> map_of (metrics_uuid s') k = Some new_uuid"
proof -
  from assms(3) have "(k, PNone) \<in> set (metrics_uuid s)" by (rule map_of_SomeD)
  then obtain pre post where sp: "metrics_uuid s = pre @ (k, PNone) # post"
    by (auto dest: split_list)
  with assms(2) have nk: "k \<notin> fst ` set pre" "k \<notin> fst ` set post" by auto
  from assms(1) sp obtain s1 where
    i1: "register_metric_items srv s pre = Next s1"
    and rest: "register_metric_items srv s1 ((k, PNone) # post) = Next s'"
    by (auto simp: register_metric_def register_metric_items_append split: flow.splits)
  from rest obtain s2 where
    o: "register_metric_one srv s1 (k, PNone) = Next s2"
    and i2: "register_metric_items srv s2 post = Next s'"
    by (auto split: flow.splits)
  from register_metric_items_frame[OF i1 nk(1)] assms(4)
  have m1: "map_of (metrics_info s1) k = Some info" by simp
  from register_metric_items_calls[OF i1] obtain before where
    b: "http_calls s1 = http_calls s @ before" by blast
  from register_metric_items_calls[OF i2] obtain after where
    a: "http_calls s' = http_calls s2 @ after" by blast
  from register_metric_one_plain[OF o m1 assms(5,6,7)] obtain payload new_uuid where
    p: "map_of payload ''label'' = Some (fst k)"
       "http_calls s2 = http_calls s1 @ [Post ''metric'' payload]"
       "fst (srv (http_calls s1) (Post ''metric'' payload)) = 201"
       "getitem (snd (srv (http_calls s1) (Post ''metric'' payload))) ''id'' = Inr new_uuid"
       "map_of (metrics_uuid s2) k = Some new_uuid" by blast
  from register_metric_items_frame[OF i2 nk(2)] p(5)
  have "map_of (metrics_uuid s') k = Some new_uuid" by simp
  with p a b show ?thesis
    by (intro exI[where x = before] exI[where x = payload] exI[where x = after]
        exI[where x = new_uuid]) simp
qed

lemma retrive_threshold_purge_distinct:
  "retrive_threshold_purge reg ks d del = Inr (d', del') \<Longrightarrow> distinct (map fst d) \<Longrightarrow>
     distinct (map fst d')"
proof (induction ks arbitrary: d del)
  case Nil
  then show ?case by simp
next
  case (Cons a ks)
  from Cons.prems(1) obtain v where v: "getitem d a = Inr v" by (auto split: sum.splits)
  show ?case
  proof (cases "v = PNone \<or> v \<in> reg")
    case True
    with Cons v show ?thesis by auto
  next
    case False
    with Cons.prems(1) v obtain d1 where
      d1: "delitem d a = Inr d1"
      and r: "retrive_threshold_purge reg ks d1 (del @ [(fst a, snd (snd a))]) = Inr (d', del')"
      by (auto split: sum.splits)
    from d1 Cons.prems(2) have "distinct (map fst d1)"
      by (auto simp: delitem_def distinct_delete split: if_splits)
    from Cons.IH[OF r this] show ?thesis .
  qed
qed

lemma retrive_threshold_distinct:
  assumes "retrive_threshold srv metrics s = Next s1" "distinct (map fst (metrics_uuid s))"
  shows "distinct (map fst (metrics_uuid s1))"
proof -
  from assms(1) obtain s0 reg th d del where
    f: "retrive_threshold_fetch srv s metrics {} [] = Next (s0, reg, th)"
    and p: "retrive_threshold_purge reg (map fst (metrics_uuid s0)) (metrics_uuid s0) []
              = Inr (d, del)"
    and s1: "s1 = s0\<lparr>thresholds := th, metrics_uuid := d\<rparr>"
    by (auto simp: retrive_threshold_def split: flow.splits sum.splits prod.splits)
  from retrive_threshold_fetch_registered[OF f] assms(2)
  have "distinct (map fst (metrics_uuid s0))" by simp
  from retrive_threshold_purge_distinct[OF p this] s1 show ?thesis by simp
qed

lemma setdefault_distinct: "distinct (map fst d) \<Longrightarrow> distinct (map fst (setdefault d k v))"
  by (auto simp: setdefault_def has_key_iff)

lemma emit_metric_distinct:
  assumes "emit_metric s metric = Inr s'" "distinct (map fst (metrics_uuid s))"
  shows "distinct (map fst (metrics_uuid s'))"
  using assms(1)
proof (cases rule: emit_metric_cases)
  case dropped
  with assms(2) show ?thesis by simp
next
  case (sent name)
  with assms(2) show ?thesis by (simp add: setdefault_distinct)
qed

lemma refreshed_step:
  "retrive_threshold accepting_registry remote_metrics registered_connector
     = Next refreshed_connector"
  by (simp add: refreshed_connector_def registered_step)

lemma refreshed_loop_eval:
  "loop (refreshed_connector\<lparr>metric_queue := [cpu_point, agent_point]\<rparr>) =
     Some (Inr (refreshed_connector
       \<lparr>metric_queue := [], mqtt_queue_size := 1,
        mqtt_published := [(''v1/agent/agent-1/data'',
           Batch [[(''measurement'', PStr ''agent_status''), (''status'', PNum 0),
                   (''uuid'', PStr ''m-0'')]])]\<rparr>))"
  by (simp add: loop_def refreshed_connector_def registered_connector_def example_connector_def
      cpu_point_def agent_point_def loop_while.simps getitem_def dict_get_def setitem_def
      publish_def MQTT_QUEUE_MAX_SIZE_def Let_def)

lemma reemitted_eval: "emit_metric refreshed_connector cpu_point = Inr reemitted_connector"
  by (simp add: emit_metric_def sent_metric_def dict_defs Let_def reemitted_connector_def
      refreshed_connector_def registered_connector_def example_connector_def cpu_point_def)

lemma reregister_eval:
  "\<exists>s3. register_metric accepting_registry reemitted_connector = Next s3
     \<and> http_calls s3 = [Post ''metric'' [(''agent'', PStr ''agent-1''), (''label'', PStr ''cpu_used'')]]
     \<and> map_of (metrics_uuid s3) (PStr ''cpu_used'', PNone, PNone) = Some (PStr ''m-9'')"
  by (simp add: register_metric_defs dict_defs reemitted_connector_def refreshed_connector_def
      registered_connector_def example_connector_def plain_info_def accepting_registry_def
      accepted_def Let_def)

text \<open>
  Claim C3, as the code has it. When a run of \<^verbatim>\<open>_retrive_threshold\<close> reaches its end, a
  cache entry whose identifier is not among the fetched ones is removed from the cache;
  no tombstone is kept. While the entry is absent, the drain loop discards a queued point
  of that identity when it reads it (a run with the point at the head of the queue is the
  run without it) and puts no point of that identity in a published batch. An emission of
  that identity that passes the alerting filter creates the entry again, unresolved, and
  the resolver then treats it as a metric never registered: when the metric has no parent
  metric, no container and no service, a pass of \<^verbatim>\<open>_register_metric\<close> that runs to its end
  posts a registration for it, answered 201, and caches the identifier of the answer.
\<close>

theorem retrive_threshold_forgets_deleted:
  assumes "retrive_threshold srv metrics s = Next s1"
    and "distinct (map fst (metrics_uuid s))"
    and "map_of (metrics_uuid s) k = Some v" and "v \<noteq> PNone"
    and "\<forall>data \<in> set metrics. getitem data ''id'' \<noteq> Inr v"
  shows "\<not> has_key (metrics_uuid s1) k
     \<and> (\<forall>p q. identity_of (snd p) = Some k \<longrightarrow>
           loop (s1\<lparr>metric_queue := p # q\<rparr>) = loop (s1\<lparr>metric_queue := q\<rparr>))
     \<and> (\<forall>q s'. loop (s1\<lparr>metric_queue := q\<rparr>) = Some (Inr s') \<longrightarrow>
           (\<exists>new. mqtt_published s' = mqtt_published s1 @ new
              \<and> (\<forall>topic batch. (topic, Batch batch) \<in> set new \<longrightarrow>
                    (\<forall>sent \<in> set batch. identity_of sent \<noteq> Some k))))
     \<and> (\<forall>metric. identity_of (snd metric) = Some k \<longrightarrow>
           sent_metric s1 (fst k) (dict_get (snd metric) ''status'' \<noteq> PNone) = Inr True \<longrightarrow>
           (\<exists>s2. emit_metric s1 metric = Inr s2 \<and> map_of (metrics_uuid s2) k = Some PNone
              \<and> (\<forall>registry info s3.
                    map_of (metrics_info s2) k = Some info \<longrightarrow>
                    dict_get info ''status_of'' = PNone \<longrightarrow>
                    dict_get info ''container'' = PNone \<longrightarrow>
                    fst (snd k) = PNone \<longrightarrow>
                    register_metric registry s2 = Next s3 \<longrightarrow>
                    (\<exists>before payload after new_uuid.
                        http_calls s3 = http_calls s2 @ before @ Post ''metric'' payload # after
                      \<and> map_of payload ''label'' = Some (fst k)
                      \<and> fst (registry (http_calls s2 @ before) (Post ''metric'' payload)) = 201
                      \<and> getitem (snd (registry (http_calls s2 @ before)
                                        (Post ''metric'' payload))) ''id'' = Inr new_uuid
                      \<and> map_of (metrics_uuid s3) k = Some new_uuid))))"
proof -
  have ab: "map_of (metrics_uuid s1) k = None"
    by (rule retrive_threshold_removes[OF assms(1,3,4,5)])
  have d1: "distinct (map fst (metrics_uuid s1))"
    by (rule retrive_threshold_distinct[OF assms(1,2)])
  have 1: "\<not> has_key (metrics_uuid s1) k" using ab by (simp add: has_key_map_of)
  have 2: "loop (s1\<lparr>metric_queue := p # q\<rparr>) = loop (s1\<lparr>metric_queue := q\<rparr>)"
    if "identity_of (snd p) = Some k" for p q
    by (rule loop_drops_head[OF that ab])
  have 3: "\<exists>new. mqtt_published s' = mqtt_published s1 @ new
              \<and> (\<forall>topic batch. (topic, Batch batch) \<in> set new \<longrightarrow>
                    (\<forall>sent \<in> set batch. identity_of sent \<noteq> Some k))"
    if "loop (s1\<lparr>metric_queue := q\<rparr>) = Some (Inr s')" for q s'
    using loop_never_delivers[OF that, of k] ab by simp
  have 4: "\<exists>s2. emit_metric s1 metric = Inr s2 \<and> map_of (metrics_uuid s2) k = Some PNone
              \<and> (\<forall>registry info s3.
                    map_of (metrics_info s2) k = Some info \<longrightarrow>
                    dict_get info ''status_of'' = PNone \<longrightarrow>
                    dict_get info ''container'' = PNone \<longrightarrow>
                    fst (snd k) = PNone \<longrightarrow>
                    register_metric registry s2 = Next s3 \<longrightarrow>
                    (\<exists>before payload after new_uuid.
                        http_calls s3 = http_calls s2 @ before @ Post ''metric'' payload # after
                      \<and> map_of payload ''label'' = Some (fst k)
                      \<and> fst (registry (http_calls s2 @ before) (Post ''metric'' payload)) = 201
                      \<and> getitem (snd (registry (http_calls s2 @ before)
                                        (Post ''metric'' payload))) ''id'' = Inr new_uuid
                      \<and> map_of (metrics_uuid s3) k = Some new_uuid))"
    if i: "identity_of (snd metric) = Some k"
      and st: "sent_metric s1 (fst k) (dict_get (snd metric) ''status'' \<noteq> PNone) = Inr True"
    for metric
  proof -
    from emit_metric_absent[OF i ab st] obtain s2 where
      e: "emit_metric s1 metric = Inr s2" "map_of (metrics_uuid s2) k = Some PNone" by blast
    have d2: "distinct (map fst (metrics_uuid s2))"
      by (rule emit_metric_distinct[OF e(1) d1])
    from e register_metric_registers_plain[OF _ d2 e(2)] show ?thesis by blast
  qed
  from 1 2 3 4 show ?thesis by blast
qed

theorem retrive_threshold_forgets_deleted_witness:
  "\<exists>s' s3. retrive_threshold accepting_registry remote_metrics registered_connector
         = Next refreshed_connector
     \<and> distinct (map fst (metrics_uuid registered_connector))
     \<and> map_of (metrics_uuid registered_connector) (PStr ''cpu_used'', PNone, PNone)
          = Some (PStr ''m-1'')
     \<and> PStr ''m-1'' \<noteq> PNone
     \<and> map (\<lambda>data. getitem data ''id'') remote_metrics = [Inr (PStr ''m-0'')]
     \<and> \<not> has_key (metrics_uuid refreshed_connector) (PStr ''cpu_used'', PNone, PNone)
     \<and> identity_of (snd cpu_point) = Some (PStr ''cpu_used'', PNone, PNone)
     \<and> loop (refreshed_connector\<lparr>metric_queue := [cpu_point, agent_point]\<rparr>)
          = loop (refreshed_connector\<lparr>metric_queue := [agent_point]\<rparr>)
     \<and> loop (refreshed_connector\<lparr>metric_queue := [cpu_point, agent_point]\<rparr>) = Some (Inr s')
     \<and> mqtt_published s' = mqtt_published refreshed_connector @
          [(''v1/agent/agent-1/data'',
            Batch [[(''measurement'', PStr ''agent_status''), (''status'', PNum 0),
                    (''uuid'', PStr ''m-0'')]])]
     \<and> identity_of [(''measurement'', PStr ''agent_status''), (''status'', PNum 0),
                     (''uuid'', PStr ''m-0'')] \<noteq> Some (PStr ''cpu_used'', PNone, PNone)
     \<and> sent_metric refreshed_connector (PStr ''cpu_used'')
          (dict_get (snd cpu_point) ''status'' \<noteq> PNone) = Inr True
     \<and> emit_metric refreshed_connector cpu_point = Inr reemitted_connector
     \<and> map_of (metrics_uuid reemitted_connector) (PStr ''cpu_used'', PNone, PNone) = Some PNone
     \<and> map_of (metrics_info reemitted_connector) (PStr ''cpu_used'', PNone, PNone)
          = Some plain_info
     \<and> dict_get plain_info ''status_of'' = PNone \<and> dict_get plain_info ''container'' = PNone
     \<and> register_metric accepting_registry reemitted_connector = Next s3
     \<and> (\<exists>before payload after.
            http_calls s3 = http_calls reemitted_connector @ before @ Post ''metric'' payload # after
          \<and> map_of payload ''label'' = Some (PStr ''cpu_used''))
     \<and> map_of (metrics_uuid s3) (PStr ''cpu_used'', PNone, PNone) = Some (PStr ''m-9'')"
proof -
  let ?k = "(PStr ''cpu_used'', PNone, PNone)"
  have dist: "distinct (map fst (metrics_uuid registered_connector))"
    by (simp add: registered_connector_def)
  have h2: "map_of (metrics_uuid registered_connector) ?k = Some (PStr ''m-1'')"
    by (simp add: registered_connector_def)
  have ids: "map (\<lambda>data. getitem data ''id'') remote_metrics = [Inr (PStr ''m-0'')]"
    by (simp add: remote_metrics_def getitem_def)
  have h4: "\<forall>data \<in> set remote_metrics. getitem data ''id'' \<noteq> Inr (PStr ''m-1'')"
    by (simp add: remote_metrics_def getitem_def)
  have i: "identity_of (snd cpu_point) = Some ?k"
    by (simp add: identity_of_def cpu_point_def dict_get_def)
  have ia: "identity_of [(''measurement'', PStr ''agent_status''), (''status'', PNum 0),
                     (''uuid'', PStr ''m-0'')] \<noteq> Some ?k"
    by (simp add: identity_of_def dict_get_def)
  have sent: "sent_metric refreshed_connector (fst ?k)
                (dict_get (snd cpu_point) ''status'' \<noteq> PNone) = Inr True"
    by (simp add: sent_metric_def refreshed_connector_def registered_connector_def
        example_connector_def)
  have info: "map_of (metrics_info reemitted_connector) ?k = Some plain_info"
    "dict_get plain_info ''status_of'' = PNone" "dict_get plain_info ''container'' = PNone"
    by (simp_all add: reemitted_connector_def refreshed_connector_def registered_connector_def
        plain_info_def dict_get_def)
  note t = retrive_threshold_forgets_deleted[OF refreshed_step dist h2 _ h4]
  from t have a: "\<not> has_key (metrics_uuid refreshed_connector) ?k" by simp
  from t i have b: "loop (refreshed_connector\<lparr>metric_queue := [cpu_point, agent_point]\<rparr>)
          = loop (refreshed_connector\<lparr>metric_queue := [agent_point]\<rparr>)" by blast
  from t i sent obtain s2 where
    c: "emit_metric refreshed_connector cpu_point = Inr s2"
       "map_of (metrics_uuid s2) ?k = Some PNone"
    and r: "\<forall>registry info s3.
              map_of (metrics_info s2) ?k = Some info \<longrightarrow>
              dict_get info ''status_of'' = PNone \<longrightarrow>
              dict_get info ''container'' = PNone \<longrightarrow>
              fst (snd ?k) = PNone \<longrightarrow>
              register_metric registry s2 = Next s3 \<longrightarrow>
              (\<exists>before payload after new_uuid.
                  http_calls s3 = http_calls s2 @ before @ Post ''metric'' payload # after
                \<and> map_of payload ''label'' = Some (fst ?k)
                \<and> fst (registry (http_calls s2 @ before) (Post ''metric'' payload)) = 201
                \<and> getitem (snd (registry (http_calls s2 @ before)
                                  (Post ''metric'' payload))) ''id'' = Inr new_uuid
                \<and> map_of (metrics_uuid s3) ?k = Some new_uuid)"
    by blast
  from c(1) reemitted_eval have s2: "s2 = reemitted_connector" by simp
  from reregister_eval obtain s3 where
    e: "register_metric accepting_registry reemitted_connector = Next s3"
       "map_of (metrics_uuid s3) ?k = Some (PStr ''m-9'')" by blast
  from r[rule_format, OF info(1)[folded s2] info(2,3) _ e(1)[folded s2]] s2
  have p: "\<exists>before payload after.
            http_calls s3 = http_calls reemitted_connector @ before @ Post ''metric'' payload # after
          \<and> map_of payload ''label'' = Some (PStr ''cpu_used'')"
    by auto
  from refreshed_step dist h2 ids a i b refreshed_loop_eval ia sent reemitted_eval c(2) s2
    info e p
  show ?thesis
    by (intro exI[where x = "refreshed_connector
       \<lparr>metric_queue := [], mqtt_queue_size := 1,
        mqtt_published := [(''v1/agent/agent-1/data'',
           Batch [[(''measurement'', PStr ''agent_status''), (''status'', PNum 0),
                   (''uuid'', PStr ''m-0'')]])]\<rparr>"] exI[where x = s3])
       (simp add: refreshed_connector_def registered_connector_def example_connector_def)
qed

text \<open>
  The claim as stated fails: the entry of \<^verbatim>\<open>cpu_used\<close> is gone after the refresh, the next
  emission makes it unresolved, and the next resolver pass registers it again.
\<close>

theorem tombstone_counterexample:
  "\<exists>s1 s2 s3.
     map_of (metrics_uuid registered_connector) (PStr ''cpu_used'', PNone, PNone) = Some (PStr ''m-1'')
     \<and> retrive_threshold accepting_registry remote_metrics registered_connector = Next s1
     \<and> map_of (metrics_uuid s1) (PStr ''cpu_used'', PNone, PNone) = None
     \<and> emit_metric s1 cpu_point = Inr s2
     \<and> map_of (metrics_uuid s2) (PStr ''cpu_used'', PNone, PNone) = Some PNone
     \<and> register_metric accepting_registry s2 = Next s3
     \<and> http_calls s3 = [Post ''metric'' [(''agent'', PStr ''agent-1''), (''label'', PStr ''cpu_used'')]]
     \<and> map_of (metrics_uuid s3) (PStr ''cpu_used'', PNone, PNone) = Some (PStr ''m-9'')"
  by (rule registered_eval)

subsection \<open>Containers\<close>

lemma register_container_one_frame:
  assumes "register_container_one srv rt s (n, inspect) = Inr s1" "n \<noteq> name"
  shows "map_of (docker_container_uuid s1) name = map_of (docker_container_uuid s) name
     \<and> docker_containers s1 = docker_containers s
     \<and> (\<exists>new. http_calls s1 = http_calls s @ new)"
  using assms
  by (auto simp: register_container_one_def http_def map_of_setitem
      split: prod.splits if_splits sum.splits pyval.splits option.splits)

lemma register_containers_update_frame:
  "register_containers_update srv rt s cs = Inr s1 \<Longrightarrow> name \<notin> fst ` set cs \<Longrightarrow>
     map_of (docker_container_uuid s1) name = map_of (docker_container_uuid s) name
     \<and> docker_containers s1 = docker_containers s
     \<and> (\<exists>new. http_calls s1 = http_calls s @ new)"
proof (induction cs arbitrary: s)
  case Nil
  then show ?case by simp
next
  case (Cons c cs)
  obtain n inspect where c: "c = (n, inspect)" by (cases c)
  from Cons.prems(1) obtain s0 where
    o: "register_container_one srv rt s (n, inspect) = Inr s0"
    and r: "register_containers_update srv rt s0 cs = Inr s1"
    by (auto simp: c split: sum.splits)
  from Cons.prems(2) c have ne: "n \<noteq> name" and rest: "name \<notin> fst ` set cs" by auto
  from register_container_one_frame[OF o ne] Cons.IH[OF r rest] show ?case by auto
qed

lemma register_containers_delete_step:
  assumes "register_containers_delete srv now s (n # ns) = Inr s'"
  obtains h u s1 where
    "map_of (docker_container_uuid s) n = Some (h, PStr u)"
    "register_containers_delete srv now s1 ns = Inr s'"
    "http_calls s1 = http_calls s @ [Delete ''container'' (PStr u)]"
    "docker_containers s1 = docker_containers s"
    "(fst (srv (http_calls s) (Delete ''container'' (PStr u))) \<noteq> 204
        \<and> fst (srv (http_calls s) (Delete ''container'' (PStr u))) \<noteq> 404
        \<and> docker_container_uuid s1 = docker_container_uuid s)
     \<or> ((fst (srv (http_calls s) (Delete ''container'' (PStr u))) = 204
          \<or> fst (srv (http_calls s) (Delete ''container'' (PStr u))) = 404)
        \<and> map_of (docker_container_uuid s1) = (map_of (docker_container_uuid s))(n := None))"
proof -
  from assms obtain h ou where g: "getitem (docker_container_uuid s) n = Inr (h, ou)"
    by (auto split: sum.splits)
  with assms obtain u where u: "ou = PStr u" by (cases ou) auto
  let ?req = "Delete ''container'' (PStr u)"
  let ?s1 = "s\<lparr>http_calls := http_calls s @ [?req]\<rparr>"
  let ?resp = "srv (http_calls s) ?req"
  have m: "map_of (docker_container_uuid s) n = Some (h, PStr u)"
    using g u by (auto simp: getitem_def split: option.splits)
  show ?thesis
  proof (cases "fst ?resp \<noteq> 204 \<and> fst ?resp \<noteq> 404")
    case True
    with assms g u have "register_containers_delete srv now ?s1 ns = Inr s'"
      by (simp add: http_def)
    with m True show ?thesis by (intro that[of h u ?s1]) auto
  next
    case False
    with assms g u obtain cu where
      d: "delitem (docker_container_uuid s) n = Inr cu"
      and r: "register_containers_delete srv now
               (?s1\<lparr>docker_container_uuid := cu, last_containers_removed := now\<rparr>) ns = Inr s'"
      by (auto simp: http_def split: sum.splits)
    from delitem_Inr[OF d] m False r show ?thesis
      by (intro that[of h u "?s1\<lparr>docker_container_uuid := cu, last_containers_removed := now\<rparr>"])
         auto
  qed
qed

lemma register_containers_delete_calls:
  "register_containers_delete srv now s ns = Inr s' \<Longrightarrow>
     \<exists>new. http_calls s' = http_calls s @ new"
proof (induction ns arbitrary: s)
  case Nil
  then show ?case by simp
next
  case (Cons n ns)
  from Cons.prems show ?case
  proof (cases rule: register_containers_delete_step)
    case (1 h u s1)
    from Cons.IH[OF 1(2)] 1(3) show ?thesis by auto
  qed
qed

lemma register_containers_delete_absent:
  "register_containers_delete srv now s ns = Inr s' \<Longrightarrow>
     map_of (docker_container_uuid s) name = None \<Longrightarrow>
     map_of (docker_container_uuid s') name = None"
proof (induction ns arbitrary: s)
  case Nil
  then show ?case by simp
next
  case (Cons n ns)
  from Cons.prems(1) show ?case
  proof (cases rule: register_containers_delete_step)
    case (1 h u s1)
    from 1(5) Cons.prems(2) have "map_of (docker_container_uuid s1) name = None" by auto
    from Cons.IH[OF 1(2) this] show ?thesis .
  qed
qed

lemma register_containers_delete_removes:
  assumes "register_containers_delete srv now s ns = Inr s'"
    and "name \<in> set ns" and "map_of (docker_container_uuid s) name = Some (h, u)"
  shows "(\<exists>new. http_calls s' = http_calls s @ new \<and> Delete ''container'' u \<in> set new)
     \<and> ((\<forall>history. fst (srv history (Delete ''container'' u)) = 204
                  \<or> fst (srv history (Delete ''container'' u)) = 404)
          \<longrightarrow> map_of (docker_container_uuid s') name = None)"
  using assms
proof (induction ns arbitrary: s)
  case Nil
  then show ?case by simp
next
  case (Cons n ns)
  from Cons.prems(1) show ?case
  proof (cases rule: register_containers_delete_step)
    case (1 h' u' s1)
    show ?thesis
    proof (cases "n = name")
      case True
      with 1(1) Cons.prems(3) have u: "u = PStr u'" by simp
      from register_containers_delete_calls[OF 1(2)] obtain new where
        new: "http_calls s' = http_calls s1 @ new" by blast
      have c: "\<exists>new. http_calls s' = http_calls s @ new \<and> Delete ''container'' u \<in> set new"
        using new 1(3) u by auto
      have "map_of (docker_container_uuid s') name = None"
        if ok: "\<forall>history. fst (srv history (Delete ''container'' u)) = 204
                  \<or> fst (srv history (Delete ''container'' u)) = 404"
      proof -
        from 1(5) ok u True have "map_of (docker_container_uuid s1) name = None" by auto
        from register_containers_delete_absent[OF 1(2) this] show ?thesis .
      qed
      with c show ?thesis by blast
    next
      case False
      with Cons.prems(2) have in_ns: "name \<in> set ns" by simp
      from 1(5) False Cons.prems(3)
      have m: "map_of (docker_container_uuid s1) name = Some (h, u)" by auto
      from Cons.IH[OF 1(2) in_ns m] 1(3) show ?thesis by auto
    qed
  qed
qed

lemma register_containers_removes:
  assumes "register_containers srv rt now s = Inr s'"
    and "\<forall>names. set (set_order rt names) = set names"
    and "map_of (docker_container_uuid s) name = Some (h, u)"
    and "\<not> has_key (docker_containers s) name"
  shows "(\<exists>new. http_calls s' = http_calls s @ new \<and> Delete ''container'' u \<in> set new)
     \<and> ((\<forall>history. fst (srv history (Delete ''container'' u)) = 204
                  \<or> fst (srv history (Delete ''container'' u)) = 404)
          \<longrightarrow> \<not> has_key (docker_container_uuid s') name)"
proof -
  from assms(1) obtain s1 where
    u: "register_containers_update srv rt s (docker_containers s) = Inr s1"
    and d: "register_containers_delete srv now s1
              (set_order rt (filter (\<lambda>name. \<not> has_key (docker_containers s1) name)
                 (map fst (docker_container_uuid s1)))) = Inr s'"
    by (auto simp: register_containers_def split: sum.splits)
  from assms(4) have "name \<notin> fst ` set (docker_containers s)" by (simp add: has_key_iff)
  from register_containers_update_frame[OF u this] assms(3) obtain new1 where
    f: "map_of (docker_container_uuid s1) name = Some (h, u)"
       "docker_containers s1 = docker_containers s" "http_calls s1 = http_calls s @ new1"
    by auto
  from f(1) have "name \<in> set (map fst (docker_container_uuid s1))"
    by (auto dest: map_of_SomeD intro: rev_image_eqI)
  with f(2) assms(4) have
    "name \<in> set (filter (\<lambda>name. \<not> has_key (docker_containers s1) name)
                 (map fst (docker_container_uuid s1)))" by simp
  with assms(2) have
    "name \<in> set (set_order rt (filter (\<lambda>name. \<not> has_key (docker_containers s1) name)
                 (map fst (docker_container_uuid s1))))" by simp
  from register_containers_delete_removes[OF d this f(1)] f(3) show ?thesis
    by (auto simp: has_key_map_of)
qed

lemmas container_defs = register_containers_def register_container_one_def
  container_payload_def jvalue_get_def jvalue_get2_def join_cmd_def convert_docker_date_def
  of_pyval_def http_def

lemma db1_payload_eval:
  "agent_uuid s = ''agent-1'' \<Longrightarrow> docker_api_version s = PStr ''1.24'' \<Longrightarrow>
     container_payload example_runtime s (PStr ''db1'') db1_inspect = Inr db1_payload"
  by (simp add: container_defs db1_inspect_def db1_payload_def example_runtime_def)

lemma db1_hash: "sha1_json example_runtime db1_inspect = ''H2''"
  by (simp add: example_runtime_def)

lemma container_one_eval:
  "register_container_one container_registry example_runtime container_connector
       (PStr ''db1'', db1_inspect)
     = Inr (container_connector
         \<lparr>http_calls := [PostJ ''container'' db1_payload],
          docker_container_uuid := [(PStr ''web1'', (PStr ''H1'', PStr ''c-1'')),
                                    (PStr ''db1'', (PStr ''H2'', PStr ''c-2''))]\<rparr>)"
  by (simp add: register_container_one_def db1_payload_eval db1_hash http_def dict_defs
      container_connector_def example_connector_def container_registry_def)

lemma container_eval:
  "\<exists>s'. map_of (docker_container_uuid container_connector) (PStr ''web1'')
            = Some (PStr ''H1'', PStr ''c-1'')
     \<and> \<not> has_key (docker_containers container_connector) (PStr ''web1'')
     \<and> register_containers container_registry example_runtime 7 container_connector = Inr s'
     \<and> docker_container_uuid s' = [(PStr ''db1'', (PStr ''H2'', PStr ''c-2''))]
     \<and> http_calls s' = [PostJ ''container'' db1_payload, Delete ''container'' (PStr ''c-1'')]"
proof -
  have dc: "docker_containers container_connector = [(PStr ''db1'', db1_inspect)]"
    by (simp add: container_connector_def)
  have "register_containers container_registry example_runtime 7 container_connector
      = Inr (container_connector
         \<lparr>http_calls := [PostJ ''container'' db1_payload, Delete ''container'' (PStr ''c-1'')],
          docker_container_uuid := [(PStr ''db1'', (PStr ''H2'', PStr ''c-2''))],
          last_containers_removed := 7\<rparr>)"
    by (simp add: register_containers_def dc container_one_eval)
       (simp add: http_def dict_defs container_connector_def example_connector_def
          example_runtime_def container_registry_def)
  then show ?thesis
    by (simp add: dict_defs container_connector_def)
qed

text \<open>
  An exception in the first loop ends the pass before the second: with inspect data that
  has no \<^verbatim>\<open>Config\<close>, \<^verbatim>\<open>inspect.get('Config', '').get('Image', '')\<close> raises and nothing is
  deleted.
\<close>

lemma register_containers_raises_without_config:
  "register_containers container_registry example_runtime 7
     (container_connector\<lparr>docker_containers := [(PStr ''db1'', IDict [(''Id'', IStr ''4fa6e0f0'')])]\<rparr>)
     = Inl AttributeError"
  by (simp add: container_defs dict_defs container_connector_def example_connector_def
      example_runtime_def container_registry_def db1_inspect_def)

text \<open>
  Claim C5, as the code has it. There is no debounce: in a pass of
  \<^verbatim>\<open>_register_containers\<close> that no exception ends, a registered container that is absent
  from local discovery is deleted at once, whatever the order in which the set of absent
  containers is iterated. The pass sends a DELETE for its identifier, and when the
  registry answers 204 or 404 the entry is removed from the cache.
\<close>

theorem register_containers_deletes_in_one_pass:
  assumes "register_containers srv rt now s = Inr s'"
    and "\<forall>names. set (set_order rt names) = set names"
    and "map_of (docker_container_uuid s) name = Some (h, u)"
    and "\<not> has_key (docker_containers s) name"
  shows "(\<exists>new. http_calls s' = http_calls s @ new \<and> Delete ''container'' u \<in> set new)
     \<and> ((\<forall>history. fst (srv history (Delete ''container'' u)) = 204
                  \<or> fst (srv history (Delete ''container'' u)) = 404)
          \<longrightarrow> \<not> has_key (docker_container_uuid s') name)"
  using assms by (rule register_containers_removes)

theorem register_containers_deletes_in_one_pass_witness:
  "\<exists>s'. register_containers container_registry example_runtime 7 container_connector = Inr s'
     \<and> (\<forall>names. set (set_order example_runtime names) = set names)
     \<and> map_of (docker_container_uuid container_connector) (PStr ''web1'')
          = Some (PStr ''H1'', PStr ''c-1'')
     \<and> \<not> has_key (docker_containers container_connector) (PStr ''web1'')
     \<and> (\<forall>history. fst (container_registry history (Delete ''container'' (PStr ''c-1''))) = 204)
     \<and> (\<exists>new. http_calls s' = http_calls container_connector @ new
            \<and> Delete ''container'' (PStr ''c-1'') \<in> set new)
     \<and> \<not> has_key (docker_container_uuid s') (PStr ''web1'')"
proof -
  from container_eval obtain s' where
    r: "register_containers container_registry example_runtime 7 container_connector = Inr s'"
    and m: "map_of (docker_container_uuid container_connector) (PStr ''web1'')
          = Some (PStr ''H1'', PStr ''c-1'')"
    and nk: "\<not> has_key (docker_containers container_connector) (PStr ''web1'')"
    by blast
  have o: "\<forall>names. set (set_order example_runtime names) = set names"
    by (simp add: example_runtime_def)
  have ok: "\<forall>history. fst (container_registry history (Delete ''container'' (PStr ''c-1''))) = 204"
    by (simp add: container_registry_def)
  from register_containers_deletes_in_one_pass[OF r o m nk] ok r o m nk show ?thesis
    by (intro exI[where x = s']) simp
qed

text \<open>
  The claim as stated fails: one pass in which \<^verbatim>\<open>web1\<close> is absent deletes it.
\<close>

theorem container_debounce_counterexample:
  "\<exists>s'. map_of (docker_container_uuid container_connector) (PStr ''web1'')
            = Some (PStr ''H1'', PStr ''c-1'')
     \<and> \<not> has_key (docker_containers container_connector) (PStr ''web1'')
     \<and> register_containers container_registry example_runtime 7 container_connector = Inr s'
     \<and> docker_container_uuid s' = [(PStr ''db1'', (PStr ''H2'', PStr ''c-2''))]
     \<and> http_calls s' = [PostJ ''container'' db1_payload, Delete ''container'' (PStr ''c-1'')]"
  by (rule container_eval)

end
